theory Spec2Isabelle
  imports Complex_Main "HOL-Library.Word" "HOL-Library.Char_ord" "HOL-Library.List_Lexorder"
    "HOL-Library.Sublist"
begin

unbundle bit_operations_syntax

section \<open>The on-screen display of \<^verbatim>\<open>Source/Core/VideoCommon/OnScreenDisplay.cpp\<close>\<close>

text \<open>
  The embedding follows the C++ source function by function. What the source leaves to
  other components is made a parameter:
  \<^item> the clock read by \<^verbatim>\<open>Common::Timer\<close> is a natural number of milliseconds, \<open>now\<close>,
    handed to every operation that starts or reads a timer (one reading per call);
  \<^item> the rendering backend (Dear ImGui and \<^verbatim>\<open>g_gfx\<close>) is a record of what it reports;
    what the code sends to it is returned as a list of effects;
  \<^item> \<^verbatim>\<open>Config::Get(Config::MAIN_OSD_MESSAGES)\<close> is the boolean \<open>draw_messages\<close>;
  \<^item> the enumeration \<^verbatim>\<open>OSD::MessageType\<close> is declared in \<^verbatim>\<open>OnScreenDisplay.h\<close>, which is not
    among the sources at hand: a type tag is the integer value of an enumerator, and the
    enumerator \<^verbatim>\<open>MessageType::Typeless\<close> is the parameter \<open>Typeless\<close> of the functions that
    name it.
  C++ \<^verbatim>\<open>float\<close> values are exact rationals here: rounding is not modelled. The integer
  types keep their widths. The mutex \<^verbatim>\<open>s_messages_mutex\<close> is not modelled: every operation
  runs alone.
\<close>

subsection \<open>Data\<close>

type_synonym u32 = "32 word"
type_synonym u64 = "64 word"
type_synonym cfloat = rat
type_synonym ImVec2 = "cfloat \<times> cfloat"
type_synonym ImVec4 = "cfloat \<times> cfloat \<times> cfloat \<times> cfloat"
type_synonym MessageType = int

text \<open>
  Modelled from the spec: the enumeration \<^verbatim>\<open>MessageStackDirection\<close> is declared in
  \<^verbatim>\<open>OnScreenDisplay.h\<close>; the spec lists its four values.
\<close>

datatype MessageStackDirection = Downward | Upward | Leftward | Rightward

text \<open>
  Modelled from the spec: \<^verbatim>\<open>struct Icon\<close> is declared in \<^verbatim>\<open>OnScreenDisplay.h\<close>; the spec
  describes it as a raw bitmap (width, height, RGBA bytes), and the source reads the fields
  \<^verbatim>\<open>rgba_data\<close>, \<^verbatim>\<open>width\<close> and \<^verbatim>\<open>height\<close>.
\<close>

record Icon =
  rgba_data :: "u32 list"
  width :: u32
  height :: u32

text \<open>An \<^verbatim>\<open>AbstractTexture\<close>: its configured size and the pixels loaded into level 0.\<close>

record Texture =
  tex_width :: u32
  tex_height :: u32
  tex_data :: "u32 list"

text \<open>
  \<^verbatim>\<open>struct Message\<close>. The field \<open>timer\<close> is the clock reading at which the constructor
  started the timer.
\<close>

record Message =
  msg_text :: string
  timer :: nat
  duration :: u32
  ever_drawn :: bool
  should_discard :: bool
  color :: u32
  icon :: "Icon option"
  texture :: "Texture option"
  msg_scale :: cfloat

text \<open>
  \<^verbatim>\<open>struct OSDMessageStack\<close>. The \<^verbatim>\<open>std::multimap\<close> is the list of its entries in iteration
  order: sorted by key, entries of one key in insertion order.
\<close>

record OSDMessageStack =
  initialPosOffset :: ImVec2
  dir :: MessageStackDirection
  centered :: bool
  reversed :: bool
  name :: string
  messages :: "(MessageType \<times> Message) list"

text \<open>
  The globals of the namespace. The \<^verbatim>\<open>std::map\<close> of named stacks is the list of its entries
  in iteration order (sorted by name, names distinct).
\<close>

record OSD =
  s_obscured_pixels_left :: int
  s_obscured_pixels_top :: int
  s_defaultMessageStack :: OSDMessageStack
  messageStacks :: "(string \<times> OSDMessageStack) list"

text \<open>
  What the rendering backend reports during one frame: the display metrics of
  \<^verbatim>\<open>ImGui::GetIO()\<close>, the result of \<^verbatim>\<open>ImGui::Begin\<close> for a window name, the size
  \<^verbatim>\<open>ImGui::GetWindowSize()\<close> of the window of that name, and whether
  \<^verbatim>\<open>g_gfx->CreateTexture\<close> returns a texture for a width and a height.
\<close>

record Backend =
  DisplayFramebufferScale :: ImVec2
  DisplaySize :: ImVec2
  ImGui_Begin :: "string \<Rightarrow> bool"
  ImGui_GetWindowSize :: "string \<Rightarrow> ImVec2"
  CreateTexture :: "u32 \<Rightarrow> u32 \<Rightarrow> bool"

text \<open>
  What one call of \<^verbatim>\<open>DrawMessage\<close> sends to the backend. The calls inside the
  \<^verbatim>\<open>if (ImGui::Begin(...))\<close> block are there only when \<^verbatim>\<open>Begin\<close> returned true.
\<close>

record WindowContent =
  image_size :: "ImVec2 option"
  font_scale :: cfloat
  text_color :: ImVec4
  text_shown :: string
  window_pos :: ImVec2

record DrawCall =
  window_name :: string
  style_alpha :: cfloat
  content :: "WindowContent option"

datatype Effect = Erased MessageType Message | Drawn DrawCall

subsection \<open>Constants\<close>

definition LEFT_MARGIN :: cfloat where "LEFT_MARGIN = 10"
definition TOP_MARGIN :: cfloat where "TOP_MARGIN = 10"
definition WINDOW_PADDING :: cfloat where "WINDOW_PADDING = 4"
definition MESSAGE_FADE_TIME :: cfloat where "MESSAGE_FADE_TIME = 1000"
definition MESSAGE_DROP_TIME :: cfloat where "MESSAGE_DROP_TIME = 5000"

subsection \<open>Messages and stacks\<close>

text \<open>\<^verbatim>\<open>Message::Message(text_, duration_, color_, icon_, scale_)\<close>, run at clock \<open>now\<close>.\<close>

definition Message_new :: "nat \<Rightarrow> string \<Rightarrow> u32 \<Rightarrow> u32 \<Rightarrow> Icon option \<Rightarrow> cfloat \<Rightarrow> Message" where
  "Message_new now text_arg duration_arg color_arg icon_arg scale_arg =
     \<lparr>msg_text = text_arg, timer = now, duration = duration_arg, ever_drawn = False,
      should_discard = False, color = color_arg, icon = icon_arg, texture = None,
      msg_scale = scale_arg\<rparr>"

text \<open>
  Modelled from the spec: \<^verbatim>\<open>Common::Timer\<close> is declared in \<^verbatim>\<open>Common/Timer.h\<close>, which is not
  among the sources at hand; the spec gives it a start and the elapsed milliseconds since
  then. \<^verbatim>\<open>ElapsedMs\<close> is taken to return them as an unsigned 64-bit count, the clock never
  running backwards.
\<close>

definition ElapsedMs :: "nat \<Rightarrow> nat \<Rightarrow> u64" where
  "ElapsedMs now started = word_of_nat (now - started)"

text \<open>
  \<^verbatim>\<open>s64 TimeRemaining() const { return duration - timer.ElapsedMs(); }\<close>: the subtraction is
  done on unsigned 64-bit values and the result is read as a signed one.
\<close>

definition TimeRemaining :: "nat \<Rightarrow> Message \<Rightarrow> int" where
  "TimeRemaining now msg = sint ((ucast (duration msg) :: u64) - ElapsedMs now (timer msg))"

text \<open>\<^verbatim>\<open>OSDMessageStack(x_offset, y_offset, dir, centered, reversed, name)\<close>.\<close>

definition OSDMessageStack_new ::
  "cfloat \<Rightarrow> cfloat \<Rightarrow> MessageStackDirection \<Rightarrow> bool \<Rightarrow> bool \<Rightarrow> string \<Rightarrow> OSDMessageStack" where
  "OSDMessageStack_new x_offset y_offset d c r n =
     \<lparr>initialPosOffset = (x_offset, y_offset), dir = d, centered = c, reversed = r, name = n,
      messages = []\<rparr>"

text \<open>The default constructor \<^verbatim>\<open>OSDMessageStack()\<close>.\<close>

definition OSDMessageStack_default :: OSDMessageStack where
  "OSDMessageStack_default = OSDMessageStack_new 0 0 Downward False False ''''"

definition IsVertical :: "OSDMessageStack \<Rightarrow> bool" where
  "IsVertical s = (dir s = Downward \<or> dir s = Upward)"

text \<open>The loop of \<^verbatim>\<open>HasMessage\<close> over the entries, from \<^verbatim>\<open>begin()\<close> to \<^verbatim>\<open>end()\<close>.\<close>

fun HasMessage_loop :: "(MessageType \<times> Message) list \<Rightarrow> string \<Rightarrow> MessageType \<Rightarrow> bool" where
  "HasMessage_loop [] message mtype = False"
| "HasMessage_loop (it # rest) message mtype =
     (if mtype = fst it \<and> message = msg_text (snd it) then True
      else HasMessage_loop rest message mtype)"

definition HasMessage :: "OSDMessageStack \<Rightarrow> string \<Rightarrow> MessageType \<Rightarrow> bool" where
  "HasMessage s message mtype = HasMessage_loop (messages s) message mtype"

text \<open>
  \<^verbatim>\<open>std::multimap::emplace\<close>: the new entry goes to the upper bound of its key, that is
  behind every entry whose key is not greater.
\<close>

fun multimap_emplace :: "MessageType \<Rightarrow> Message \<Rightarrow> (MessageType \<times> Message) list
    \<Rightarrow> (MessageType \<times> Message) list" where
  "multimap_emplace k v [] = [(k, v)]"
| "multimap_emplace k v (e # es) =
     (if fst e \<le> k then e # multimap_emplace k v es else (k, v) # e # es)"

text \<open>
  The loop over \<^verbatim>\<open>equal_range(type)\<close> in \<^verbatim>\<open>AddTypedMessage\<close>: every entry of that key gets
  \<^verbatim>\<open>should_discard = true\<close>.
\<close>

fun mark_equal_range :: "MessageType \<Rightarrow> (MessageType \<times> Message) list
    \<Rightarrow> (MessageType \<times> Message) list" where
  "mark_equal_range mtype [] = []"
| "mark_equal_range mtype (e # es) =
     (if fst e = mtype then (fst e, (snd e)\<lparr>should_discard := True\<rparr>) else e)
       # mark_equal_range mtype es"

subsection \<open>The registry of stacks\<close>

text \<open>\<^verbatim>\<open>messageStacks.contains(name)\<close>.\<close>

definition contains :: "(string \<times> OSDMessageStack) list \<Rightarrow> string \<Rightarrow> bool" where
  "contains stacks n = (n \<in> fst ` set stacks)"

text \<open>
  \<^verbatim>\<open>messageStacks[name]\<close>, read; the source uses it only behind \<^verbatim>\<open>contains\<close>. For a
  missing name the operator gives a default-constructed stack.
\<close>

definition stack_at :: "(string \<times> OSDMessageStack) list \<Rightarrow> string \<Rightarrow> OSDMessageStack" where
  "stack_at stacks n = (case map_of stacks n of Some s \<Rightarrow> s | None \<Rightarrow> OSDMessageStack_default)"

text \<open>Writing through the reference \<^verbatim>\<open>messageStacks[name]\<close> of an existing entry.\<close>

fun stack_store :: "string \<Rightarrow> OSDMessageStack \<Rightarrow> (string \<times> OSDMessageStack) list
    \<Rightarrow> (string \<times> OSDMessageStack) list" where
  "stack_store n s [] = []"
| "stack_store n s (e # es) = (if fst e = n then (n, s) # es else e # stack_store n s es)"

text \<open>
  \<^verbatim>\<open>std::map::emplace\<close>: nothing happens when the key is there already; otherwise the
  entry is put at its place in the order of the keys (\<^verbatim>\<open>std::string\<close> compares bytes
  lexicographically).
\<close>

fun map_emplace :: "string \<Rightarrow> OSDMessageStack \<Rightarrow> (string \<times> OSDMessageStack) list
    \<Rightarrow> (string \<times> OSDMessageStack) list" where
  "map_emplace n s [] = [(n, s)]"
| "map_emplace n s (e # es) =
     (if fst e = n then e # es
      else if n < fst e then (n, s) # e # es
      else e # map_emplace n s es)"

text \<open>The pointer \<^verbatim>\<open>OSDMessageStack* stack\<close> of \<^verbatim>\<open>AddTypedMessage\<close>.\<close>

datatype StackPtr = DefaultStack | NamedStack string

definition deref :: "OSD \<Rightarrow> StackPtr \<Rightarrow> OSDMessageStack" where
  "deref osd p = (case p of DefaultStack \<Rightarrow> s_defaultMessageStack osd
                   | NamedStack n \<Rightarrow> stack_at (messageStacks osd) n)"

definition store :: "StackPtr \<Rightarrow> OSDMessageStack \<Rightarrow> OSD \<Rightarrow> OSD" where
  "store p s osd = (case p of DefaultStack \<Rightarrow> osd\<lparr>s_defaultMessageStack := s\<rparr>
                   | NamedStack n \<Rightarrow> osd\<lparr>messageStacks := stack_store n s (messageStacks osd)\<rparr>)"

text \<open>The state of the namespace at program start.\<close>

definition OSD_initial :: OSD where
  "OSD_initial = \<lparr>s_obscured_pixels_left = 0, s_obscured_pixels_top = 0,
     s_defaultMessageStack = OSDMessageStack_default, messageStacks = []\<rparr>"

subsection \<open>The mutation API\<close>

definition AddTypedMessage :: "MessageType \<Rightarrow> nat \<Rightarrow> MessageType \<Rightarrow> string \<Rightarrow> u32 \<Rightarrow> u32
    \<Rightarrow> Icon option \<Rightarrow> string \<Rightarrow> bool \<Rightarrow> cfloat \<Rightarrow> OSD \<Rightarrow> OSD" where
  "AddTypedMessage Typeless now mtype message ms argb icon_arg message_stack prevent_duplicate
      scale_arg osd =
     (let stack = (if contains (messageStacks osd) message_stack then NamedStack message_stack
                   else DefaultStack)
      in if prevent_duplicate \<and> HasMessage (deref osd stack) message mtype then osd
         else
           let marked = (if mtype \<noteq> Typeless
                         then mark_equal_range mtype (messages (deref osd stack))
                         else messages (deref osd stack))
           in store stack
                ((deref osd stack)\<lparr>messages :=
                   multimap_emplace mtype (Message_new now message ms argb icon_arg scale_arg)
                     marked\<rparr>)
                osd)"

definition AddMessage :: "MessageType \<Rightarrow> nat \<Rightarrow> string \<Rightarrow> u32 \<Rightarrow> u32 \<Rightarrow> Icon option \<Rightarrow> string
    \<Rightarrow> bool \<Rightarrow> cfloat \<Rightarrow> OSD \<Rightarrow> OSD" where
  "AddMessage Typeless now message ms argb icon_arg message_stack prevent_duplicate scale_arg osd =
     AddTypedMessage Typeless now Typeless message ms argb icon_arg message_stack
       prevent_duplicate scale_arg osd"

definition AddMessageStack :: "cfloat \<Rightarrow> cfloat \<Rightarrow> MessageStackDirection \<Rightarrow> bool \<Rightarrow> bool
    \<Rightarrow> string \<Rightarrow> OSD \<Rightarrow> OSD" where
  "AddMessageStack x_offset y_offset d c r n osd =
     osd\<lparr>messageStacks :=
       map_emplace n (OSDMessageStack_new x_offset y_offset d c r n) (messageStacks osd)\<rparr>"

definition ClearMessages :: "OSD \<Rightarrow> OSD" where
  "ClearMessages osd =
     osd\<lparr>s_defaultMessageStack := (s_defaultMessageStack osd)\<lparr>messages := []\<rparr>,
         messageStacks := map (\<lambda>e. (fst e, (snd e)\<lparr>messages := []\<rparr>)) (messageStacks osd)\<rparr>"

definition SetObscuredPixelsLeft :: "int \<Rightarrow> OSD \<Rightarrow> OSD" where
  "SetObscuredPixelsLeft w osd = osd\<lparr>s_obscured_pixels_left := w\<rparr>"

definition SetObscuredPixelsTop :: "int \<Rightarrow> OSD \<Rightarrow> OSD" where
  "SetObscuredPixelsTop h osd = osd\<lparr>s_obscured_pixels_top := h\<rparr>"

subsection \<open>Drawing one message\<close>

definition ARGBToImVec4 :: "u32 \<Rightarrow> ImVec4" where
  "ARGBToImVec4 argb =
     (of_nat (unat (drop_bit 16 argb AND 0xFF)) / 255,
      of_nat (unat (drop_bit 8 argb AND 0xFF)) / 255,
      of_nat (unat (drop_bit 0 argb AND 0xFF)) / 255,
      of_nat (unat (drop_bit 24 argb AND 0xFF)) / 255)"

text \<open>The decimal digits that \<^verbatim>\<open>fmt::format\<close> prints for an index.\<close>

function format_nat :: "nat \<Rightarrow> string" where
  "format_nat n =
     (if n < 10 then [''0123456789'' ! n]
      else format_nat (n div 10) @ [''0123456789'' ! (n mod 10)])"
  by pat_completeness auto
termination
  by (relation "measure id") auto

text \<open>\<^verbatim>\<open>fmt::format("osd_{}_{}", message_Stack.name, index)\<close>.\<close>

definition format_window_name :: "string \<Rightarrow> nat \<Rightarrow> string" where
  "format_window_name stack_name index = ''osd_'' @ stack_name @ ''_'' @ format_nat index"

text \<open>
  \<^verbatim>\<open>std::string::c_str()\<close> as the backend reads it: the characters in front of the first
  NUL. \<^verbatim>\<open>DrawMessage\<close> hands the window name and the text to the backend this way (lines
  124, 160 and 193).
\<close>

definition c_str :: "string \<Rightarrow> string" where
  "c_str str = takeWhile (\<lambda>c. c \<noteq> CHR 0x00) str"

text \<open>\<^verbatim>\<open>std::clamp(v, lo, hi)\<close>.\<close>

definition std_clamp :: "cfloat \<Rightarrow> cfloat \<Rightarrow> cfloat \<Rightarrow> cfloat" where
  "std_clamp v lo hi = (if v < lo then lo else if hi < v then hi else v)"

text \<open>
  The parameter \<^verbatim>\<open>int time_left\<close> of \<^verbatim>\<open>DrawMessage\<close> receives the caller's \<^verbatim>\<open>s64\<close>: the
  value is narrowed to 32 bits.
\<close>

definition narrow_to_int :: "int \<Rightarrow> int" where
  "narrow_to_int t = sint (word_of_int t :: 32 word)"

text \<open>
  The fade of \<^verbatim>\<open>DrawMessage\<close>. The cast \<^verbatim>\<open>(float)msg.duration\<close> is exact below \<open>2 ^ 24\<close> and
  stays above \<open>1000\<close> beyond, so the minimum with \<^verbatim>\<open>MESSAGE_FADE_TIME\<close> is the one computed
  here.
\<close>

definition fade_time :: "Message \<Rightarrow> cfloat" where
  "fade_time msg = max (min MESSAGE_FADE_TIME (of_nat (unat (duration msg)))) 1"

definition fade_alpha :: "Message \<Rightarrow> int \<Rightarrow> cfloat" where
  "fade_alpha msg time_left = std_clamp (of_int time_left / fade_time msg) 0 1"

text \<open>
  The texture of the icon, made on the first draw that reaches it: the message with its
  \<^verbatim>\<open>texture\<close> and \<^verbatim>\<open>icon\<close> as lines 130 to 148 leave them.
\<close>

definition materialize_icon :: "Backend \<Rightarrow> Message \<Rightarrow> Message" where
  "materialize_icon io msg =
     (case icon msg of
        None \<Rightarrow> msg
      | Some ic \<Rightarrow>
          (case texture msg of
             Some t \<Rightarrow> msg
           | None \<Rightarrow>
               if CreateTexture io (width ic) (height ic)
               then msg\<lparr>texture := Some \<lparr>tex_width = width ic, tex_height = height ic,
                                         tex_data = rgba_data ic\<rparr>\<rparr>
               else msg\<lparr>icon := None\<rparr>))"

text \<open>
  \<^verbatim>\<open>DrawMessage(index, msg, position, time_left, message_Stack)\<close>: the size it returns, the
  message as it leaves it, and what it sent to the backend. \<open>time_left\<close> is the value of
  the 32-bit parameter.
\<close>

definition DrawMessage :: "Backend \<Rightarrow> nat \<Rightarrow> Message \<Rightarrow> ImVec2 \<Rightarrow> int \<Rightarrow> OSDMessageStack
    \<Rightarrow> ImVec2 \<times> Message \<times> DrawCall" where
  "DrawMessage io index msg position time_left message_Stack =
     (let wname = c_str (format_window_name (name message_Stack) index);
          alpha = fade_alpha msg time_left;
          pushed_alpha = (if ever_drawn msg then alpha else 1)
      in if ImGui_Begin io wname
         then
           let msg1 = materialize_icon io msg;
               img = (case icon msg1 of
                        None \<Rightarrow> None
                      | Some ic \<Rightarrow>
                          (case texture msg1 of
                             None \<Rightarrow> None
                           | Some t \<Rightarrow> Some (of_nat (unat (width ic)), of_nat (unat (height ic)))));
               window_width = fst (ImGui_GetWindowSize io wname)
                                + WINDOW_PADDING * fst (DisplayFramebufferScale io);
               window_height = snd (ImGui_GetWindowSize io wname)
                                 + WINDOW_PADDING * snd (DisplayFramebufferScale io);
               x_pos0 = fst position;
               y_pos0 = snd position;
               x_pos1 = (if centered message_Stack \<and> IsVertical message_Stack
                         then fst (DisplaySize io) / 2 - window_width / 2 else x_pos0);
               y_pos1 = (if centered message_Stack \<and> \<not> IsVertical message_Stack
                         then snd (DisplaySize io) / 2 - window_height / 2 else y_pos0);
               x_pos = (if dir message_Stack = Leftward then x_pos1 - window_width else x_pos1);
               y_pos = (if dir message_Stack = Upward then y_pos1 - window_height else y_pos1)
           in ((window_width, window_height),
               msg1\<lparr>ever_drawn := True\<rparr>,
               \<lparr>window_name = wname, style_alpha = pushed_alpha,
                content = Some \<lparr>image_size = img, font_scale = msg_scale msg1,
                                text_color = ARGBToImVec4 (color msg1),
                                text_shown = c_str (msg_text msg1), window_pos = (x_pos, y_pos)\<rparr>\<rparr>)
         else ((0, 0),
               msg\<lparr>ever_drawn := True\<rparr>,
               \<lparr>window_name = wname, style_alpha = pushed_alpha, content = None\<rparr>))"

subsection \<open>The draw pass of one stack\<close>

text \<open>
  The state of the loop of \<^verbatim>\<open>DrawMessages(OSDMessageStack&)\<close>. The iterator \<^verbatim>\<open>it\<close> into the
  multimap is the place where the entries are cut in two: \<open>left\<close> holds the entries in
  front of \<^verbatim>\<open>it\<close>, the nearest first, and \<open>right\<close> the entries from \<^verbatim>\<open>it\<close> on, so that
  \<^verbatim>\<open>it == begin()\<close> is \<open>left = []\<close>, \<^verbatim>\<open>it == end()\<close> is \<open>right = []\<close> and \<^verbatim>\<open>*it\<close> is the
  head of \<open>right\<close>. \<open>effects\<close> lists, in order, the entries erased and the windows drawn.
\<close>

record DrawState =
  left :: "(MessageType \<times> Message) list"
  right :: "(MessageType \<times> Message) list"
  current_x :: cfloat
  current_y :: cfloat
  index :: nat
  effects :: "Effect list"

text \<open>
  The removal test of line 283: \<^verbatim>\<open>-time_left >= MESSAGE_DROP_TIME\<close> compares the
  \<^verbatim>\<open>s64\<close>, converted to \<^verbatim>\<open>float\<close>, with \<open>5000\<close>; the conversion is monotone and exact on
  \<open>5000\<close>, so the comparison is the one of the integers.
\<close>

definition expired :: "Message \<Rightarrow> int \<Rightarrow> bool" where
  "expired msg time_left =
     (time_left \<le> 0 \<and> (ever_drawn msg \<or> MESSAGE_DROP_TIME \<le> of_int (- time_left)))"

text \<open>
  One iteration of the loop per unfolding. \<open>messageStack\<close> gives the layout of the stack
  (its \<open>messages\<close> are in the state). After \<^verbatim>\<open>++it\<close> the reference \<^verbatim>\<open>msg\<close> is the head of
  \<open>left\<close>; in a reversed stack it stays the head of \<open>right\<close>. \<^verbatim>\<open>erase(it)\<close> returns the
  iterator behind the erased entry: \<open>right\<close> loses its head. Behind the test of the
  loop \<open>right\<close> is never empty where \<^verbatim>\<open>*it\<close> is read (the first case of the
  \<open>case\<close> is there for totality only). \<^verbatim>\<open>int index\<close> counts the windows from 0.
\<close>

function DrawMessages_loop :: "Backend \<Rightarrow> bool \<Rightarrow> nat \<Rightarrow> OSDMessageStack \<Rightarrow> DrawState
    \<Rightarrow> DrawState" where
  "DrawMessages_loop io draw_messages now messageStack st =
     (if (if reversed messageStack then left st = [] else right st = []) then st
      else
        let st1 = (if reversed messageStack
                   then st\<lparr>left := tl (left st), right := hd (left st) # right st\<rparr>
                   else st)
        in case right st1 of
             [] \<Rightarrow> st1
           | e # rest \<Rightarrow>
               if should_discard (snd e)
               then DrawMessages_loop io draw_messages now messageStack
                      (st1\<lparr>right := rest, effects := effects st1 @ [Erased (fst e) (snd e)]\<rparr>)
               else
                 let time_left = TimeRemaining now (snd e)
                 in if expired (snd e) time_left
                    then DrawMessages_loop io draw_messages now messageStack
                           (st1\<lparr>right := rest,
                                effects := effects st1 @ [Erased (fst e) (snd e)]\<rparr>)
                    else if draw_messages
                    then
                      let drawn = DrawMessage io (index st1) (snd e)
                                    (current_x st1, current_y st1) (narrow_to_int time_left)
                                    messageStack;
                          messageSize = fst drawn;
                          e' = (fst e, fst (snd drawn));
                          st2 = (if reversed messageStack then st1\<lparr>right := e' # rest\<rparr>
                                 else st1\<lparr>left := e' # left st1, right := rest\<rparr>)
                      in DrawMessages_loop io draw_messages now messageStack
                           (st2\<lparr>index := index st1 + 1,
                                effects := effects st1 @ [Drawn (snd (snd drawn))],
                                current_y :=
                                  (if IsVertical messageStack
                                   then current_y st1 + (if dir messageStack = Upward
                                                         then - snd messageSize
                                                         else snd messageSize)
                                   else current_y st1),
                                current_x :=
                                  (if IsVertical messageStack then current_x st1
                                   else current_x st1 + (if dir messageStack = Leftward
                                                         then - fst messageSize
                                                         else fst messageSize))\<rparr>)
                    else DrawMessages_loop io draw_messages now messageStack
                           (if reversed messageStack then st1
                            else st1\<lparr>left := e # left st1, right := rest\<rparr>))"
  by pat_completeness auto
termination
  by (relation "measure (\<lambda>(io, draw_messages, now, messageStack, st).
         if reversed messageStack then length (left st) else length (right st))")
     (auto split: if_splits)

text \<open>
  \<^verbatim>\<open>DrawMessages(OSDMessageStack& messageStack)\<close>: the stack after the pass and the effects
  of the pass, in order.
\<close>

definition DrawMessages :: "Backend \<Rightarrow> bool \<Rightarrow> nat \<Rightarrow> int \<Rightarrow> int \<Rightarrow> OSDMessageStack
    \<Rightarrow> OSDMessageStack \<times> Effect list" where
  "DrawMessages io draw_messages now obscured_left obscured_top messageStack =
     (let x0 = LEFT_MARGIN * fst (DisplayFramebufferScale io) + of_int obscured_left
                 + fst (initialPosOffset messageStack);
          y0 = TOP_MARGIN * snd (DisplayFramebufferScale io) + of_int obscured_top
                 + snd (initialPosOffset messageStack);
          x1 = (if dir messageStack = Leftward then fst (DisplaySize io) - x0 else x0);
          y1 = (if dir messageStack = Upward then snd (DisplaySize io) - y0 else y0);
          st0 = (if reversed messageStack
                 then \<lparr>left = rev (messages messageStack), right = [],
                       current_x = x1, current_y = y1, index = 0, effects = []\<rparr>
                 else \<lparr>left = [], right = messages messageStack,
                       current_x = x1, current_y = y1, index = 0, effects = []\<rparr>);
          st = DrawMessages_loop io draw_messages now messageStack st0
      in (messageStack\<lparr>messages := rev (left st) @ right st\<rparr>, effects st))"

text \<open>
  The passes over the named stacks, in the order of the map; the effects of all of them
  are appended to \<open>acc\<close>.
\<close>

fun DrawMessages_named :: "Backend \<Rightarrow> bool \<Rightarrow> nat \<Rightarrow> int \<Rightarrow> int
    \<Rightarrow> (string \<times> OSDMessageStack) list \<Rightarrow> (string \<times> OSDMessageStack) list \<times> Effect list" where
  "DrawMessages_named io draw_messages now ol ot [] = ([], [])"
| "DrawMessages_named io draw_messages now ol ot (e # es) =
     (let r = DrawMessages io draw_messages now ol ot (snd e);
          rs = DrawMessages_named io draw_messages now ol ot es
      in ((fst e, fst r) # fst rs, snd r @ snd rs))"

text \<open>\<^verbatim>\<open>DrawMessages()\<close>: the default stack first, then every named stack.\<close>

definition DrawMessages_all :: "Backend \<Rightarrow> bool \<Rightarrow> nat \<Rightarrow> OSD \<Rightarrow> OSD \<times> Effect list" where
  "DrawMessages_all io draw_messages now osd =
     (let r = DrawMessages io draw_messages now (s_obscured_pixels_left osd)
                (s_obscured_pixels_top osd) (s_defaultMessageStack osd);
          rs = DrawMessages_named io draw_messages now (s_obscured_pixels_left osd)
                 (s_obscured_pixels_top osd) (messageStacks osd)
      in (osd\<lparr>s_defaultMessageStack := fst r, messageStacks := fst rs\<rparr>, snd r @ snd rs))"

text \<open>
  The draw passes of one stack over a sequence of frames, each frame with its toggle and
  its clock: the stack after the last of them.
\<close>

fun DrawMessages_frames :: "Backend \<Rightarrow> (bool \<times> nat) list \<Rightarrow> int \<Rightarrow> int \<Rightarrow> OSDMessageStack
    \<Rightarrow> OSDMessageStack" where
  "DrawMessages_frames io [] obscured_left obscured_top s = s"
| "DrawMessages_frames io (f # fs) obscured_left obscured_top s =
     DrawMessages_frames io fs obscured_left obscured_top
       (fst (DrawMessages io (fst f) (snd f) obscured_left obscured_top s))"

subsection \<open>The pass, entry by entry\<close>

text \<open>
  The same pass written as a recursion over the entries in the order in which the loop
  visits them, from the cursor \<open>(x, y)\<close> and the window index \<open>i\<close>: the entries that stay
  (as the pass leaves them) and the effects. It is proved below to be what the loop
  computes; the theorems about the pass are proved through it.
\<close>

definition advance :: "OSDMessageStack \<Rightarrow> ImVec2 \<Rightarrow> ImVec2 \<Rightarrow> ImVec2" where
  "advance s cursor messageSize =
     (if IsVertical s
      then (fst cursor,
            snd cursor + (if dir s = Upward then - snd messageSize else snd messageSize))
      else (fst cursor + (if dir s = Leftward then - fst messageSize else fst messageSize),
            snd cursor))"

definition pruned :: "nat \<Rightarrow> Message \<Rightarrow> bool" where
  "pruned now msg = (should_discard msg \<or> expired msg (TimeRemaining now msg))"

fun visit :: "Backend \<Rightarrow> bool \<Rightarrow> nat \<Rightarrow> OSDMessageStack \<Rightarrow> ImVec2 \<Rightarrow> nat
    \<Rightarrow> (MessageType \<times> Message) list \<Rightarrow> (MessageType \<times> Message) list \<times> Effect list" where
  "visit io draw_messages now s cursor i [] = ([], [])"
| "visit io draw_messages now s cursor i (e # es) =
     (if pruned now (snd e)
      then (let r = visit io draw_messages now s cursor i es
            in (fst r, Erased (fst e) (snd e) # snd r))
      else if draw_messages
      then (let drawn = DrawMessage io i (snd e) cursor
                          (narrow_to_int (TimeRemaining now (snd e))) s;
                r = visit io draw_messages now s (advance s cursor (fst drawn)) (i + 1) es
            in ((fst e, fst (snd drawn)) # fst r, Drawn (snd (snd drawn)) # snd r))
      else (let r = visit io draw_messages now s cursor i es
            in (e # fst r, snd r)))"

text \<open>The cursor at which \<^verbatim>\<open>DrawMessages\<close> starts.\<close>

definition start_cursor :: "Backend \<Rightarrow> int \<Rightarrow> int \<Rightarrow> OSDMessageStack \<Rightarrow> ImVec2" where
  "start_cursor io obscured_left obscured_top s =
     (let x0 = LEFT_MARGIN * fst (DisplayFramebufferScale io) + of_int obscured_left
                 + fst (initialPosOffset s);
          y0 = TOP_MARGIN * snd (DisplayFramebufferScale io) + of_int obscured_top
                 + snd (initialPosOffset s)
      in (if dir s = Leftward then fst (DisplaySize io) - x0 else x0,
          if dir s = Upward then snd (DisplaySize io) - y0 else y0))"

text \<open>The entries in the order in which the pass visits them.\<close>

definition visiting_order :: "OSDMessageStack \<Rightarrow> (MessageType \<times> Message) list" where
  "visiting_order s = (if reversed s then rev (messages s) else messages s)"

subsection \<open>Reading a state and the effects of a pass\<close>

text \<open>
  The stack on which a call of \<^verbatim>\<open>AddTypedMessage\<close> with the stack name \<open>n\<close> works: what the
  pointer \<^verbatim>\<open>stack\<close> refers to after lines 209 to 213.
\<close>

definition target :: "OSD \<Rightarrow> string \<Rightarrow> OSDMessageStack" where
  "target osd n =
     (if contains (messageStacks osd) n then stack_at (messageStacks osd) n
      else s_defaultMessageStack osd)"

text \<open>
  What tells an entry from another through its life: its type tag and the fields of its
  message that no function writes after the constructor.
\<close>

definition identity :: "MessageType \<times> Message
    \<Rightarrow> MessageType \<times> string \<times> nat \<times> u32 \<times> u32 \<times> cfloat" where
  "identity e =
     (fst e, msg_text (snd e), timer (snd e), duration (snd e), color (snd e),
      msg_scale (snd e))"

text \<open>The windows of a list of effects, in order.\<close>

fun drawn_calls :: "Effect list \<Rightarrow> DrawCall list" where
  "drawn_calls [] = []"
| "drawn_calls (Erased k m # fs) = drawn_calls fs"
| "drawn_calls (Drawn c # fs) = c # drawn_calls fs"

text \<open>The entries erased by a list of effects, in order.\<close>

fun erased_entries :: "Effect list \<Rightarrow> (MessageType \<times> Message) list" where
  "erased_entries [] = []"
| "erased_entries (Erased k m # fs) = (k, m) # erased_entries fs"
| "erased_entries (Drawn c # fs) = erased_entries fs"

text \<open>
  The windows that were given a position (\<^verbatim>\<open>ImGui::SetWindowPos\<close>), in order: name and
  position. The texts shown (\<^verbatim>\<open>ImGui::TextColored\<close>), in order.
\<close>

fun window_positions :: "DrawCall list \<Rightarrow> (string \<times> ImVec2) list" where
  "window_positions [] = []"
| "window_positions (c # cs) =
     (case content c of
        None \<Rightarrow> window_positions cs
      | Some w \<Rightarrow> (window_name c, window_pos w) # window_positions cs)"

fun shown_texts :: "DrawCall list \<Rightarrow> string list" where
  "shown_texts [] = []"
| "shown_texts (c # cs) =
     (case content c of
        None \<Rightarrow> shown_texts cs
      | Some w \<Rightarrow> text_shown w # shown_texts cs)"

subsection \<open>Values for closed instances\<close>

text \<open>
  A backend that begins every window and one that begins none; both report a window of
  100 by 20 pixels on a display of 640 by 480 with framebuffer scale 1.
\<close>

definition io_visible :: Backend where
  "io_visible = \<lparr>DisplayFramebufferScale = (1, 1), DisplaySize = (640, 480),
     ImGui_Begin = (\<lambda>w. True), ImGui_GetWindowSize = (\<lambda>w. (100, 20)),
     CreateTexture = (\<lambda>w h. True)\<rparr>"


text \<open>
  Two messages with the same type tag 0, added one after the other at clock 0 with
  \<open>prevent_duplicate = false\<close>; the typeless tag is 2.
\<close>

definition msg_old :: Message where
  "msg_old = Message_new 0 ''old'' 2000 0xFF00FF00 None 1"

definition msg_new :: Message where
  "msg_new = Message_new 0 ''new'' 2000 0xFF00FF00 None 1"

definition osd_replaced :: OSD where
  "osd_replaced =
     AddTypedMessage 2 0 0 ''new'' 2000 0xFF00FF00 None [] False 1
       (AddTypedMessage 2 0 0 ''old'' 2000 0xFF00FF00 None [] False 1 OSD_initial)"

text \<open>A message of duration 0, added without a type at clock 0 to the default stack.\<close>

definition msg_zero :: Message where
  "msg_zero = Message_new 0 ''zero'' 0 0xFFFFFFFF None 1"

definition osd_zero :: OSD where
  "osd_zero = AddMessage 2 0 ''zero'' 0 0xFFFFFFFF None [] False 1 OSD_initial"

text \<open>
  A message of the longest duration a \<^verbatim>\<open>u32\<close> holds (\<^verbatim>\<open>0xFFFFFFFF\<close> ms, about 49.7 days),
  added without a type at clock 0 to the default stack.
\<close>

definition msg_long :: Message where
  "msg_long = Message_new 0 ''long'' 0xFFFFFFFF 0xFFFFFFFF None 1"

definition osd_long :: OSD where
  "osd_long = AddMessage 2 0 ''long'' 0xFFFFFFFF 0xFFFFFFFF None [] False 1 OSD_initial"

text \<open>
  A reversed stack named \<open>r\<close>; message \<open>A\<close> of type 1 is added to it at clock 0, then
  message \<open>B\<close> of type 0 at clock 1.
\<close>

definition msg_A :: Message where
  "msg_A = Message_new 0 ''A'' 2000 0xFFFFFFFF None 1"

definition msg_B :: Message where
  "msg_B = Message_new 1 ''B'' 2000 0xFFFFFFFF None 1"

definition osd_reversed :: OSD where
  "osd_reversed =
     AddTypedMessage 2 1 0 ''B'' 2000 0xFFFFFFFF None ''r'' False 1
       (AddTypedMessage 2 0 1 ''A'' 2000 0xFFFFFFFF None ''r'' False 1
          (AddMessageStack 0 0 Downward False True ''r'' OSD_initial))"

text \<open>Two more messages for the stack \<open>r\<close>, without a type: \<open>C\<close> at clock 2, \<open>D\<close> at clock 3.\<close>

definition msg_C :: Message where
  "msg_C = Message_new 2 ''C'' 2000 0xFFFFFFFF None 1"

definition msg_D :: Message where
  "msg_D = Message_new 3 ''D'' 2000 0xFFFFFFFF None 1"

definition osd_reversed_C :: OSD where
  "osd_reversed_C = AddMessage 2 2 ''C'' 2000 0xFFFFFFFF None ''r'' False 1 osd_reversed"

definition osd_reversed_CD :: OSD where
  "osd_reversed_CD = AddMessage 2 3 ''D'' 2000 0xFFFFFFFF None ''r'' False 1 osd_reversed_C"

text \<open>
  Three calls with the empty name: a message added at clock 0 with the empty stack name, a
  stack registered under the empty name, and a second message added at clock 1 with the
  empty stack name.
\<close>

definition msg_hi :: Message where
  "msg_hi = Message_new 0 ''hi'' 2000 0xFFFFFFFF None 1"

definition msg_late :: Message where
  "msg_late = Message_new 1 ''late'' 2000 0xFFFFFFFF None 1"

definition osd_empty_name_twice :: OSD where
  "osd_empty_name_twice =
     AddMessage 2 1 ''late'' 2000 0xFFFFFFFF None [] False 1
       (AddMessageStack 0 0 Downward False False []
          (AddMessage 2 0 ''hi'' 2000 0xFFFFFFFF None [] False 1 OSD_initial))"

text \<open>The same message added under a name that no stack was registered with.\<close>

definition osd_unknown_name :: OSD where
  "osd_unknown_name = AddMessage 2 0 ''hi'' 2000 0xFFFFFFFF None ''nowhere'' False 1 OSD_initial"

text \<open>
  The default stack after three calls: \<open>hi\<close> of type 0 at clock 0, \<open>bye\<close> of type 0 at
  clock 5, which marks the first, and \<open>hi\<close> of type 1 at clock 10.
\<close>

definition msg_hi0 :: Message where
  "msg_hi0 = Message_new 0 ''hi'' 2000 0xFFFFFFFF None 1"

definition msg_bye :: Message where
  "msg_bye = Message_new 5 ''bye'' 2000 0xFFFFFFFF None 1"

definition msg_hi1 :: Message where
  "msg_hi1 = Message_new 10 ''hi'' 2000 0xFFFFFFFF None 1"

definition osd_marked_hi :: OSD where
  "osd_marked_hi =
     AddTypedMessage 2 5 0 ''bye'' 2000 0xFFFFFFFF None [] False 1
       (AddTypedMessage 2 0 0 ''hi'' 2000 0xFFFFFFFF None [] False 1 OSD_initial)"

definition osd_same_text :: OSD where
  "osd_same_text = AddTypedMessage 2 10 1 ''hi'' 2000 0xFFFFFFFF None [] False 1 osd_marked_hi"

text \<open>A backend that begins every window but the one named \<open>osd_r_1\<close>.\<close>

definition io_second_hidden :: Backend where
  "io_second_hidden = io_visible\<lparr>ImGui_Begin := (\<lambda>w. w \<noteq> ''osd_r_1'')\<rparr>"

text \<open>
  A message of type 0 for 2000 ms, added at clock 0 and drawn by the pass at clock 10; a
  second message of type 0 with duration 0, added at clock 20; the passes at clocks 30
  and 46.
\<close>

definition msg_first :: Message where
  "msg_first = Message_new 0 ''first'' 2000 0xFFFFFFFF None 1"

definition msg_second :: Message where
  "msg_second = Message_new 20 ''second'' 0 0xFFFFFFFF None 1"

definition osd_first_drawn :: OSD where
  "osd_first_drawn =
     fst (DrawMessages_all io_visible True 10
            (AddTypedMessage 2 0 0 ''first'' 2000 0xFFFFFFFF None [] False 1 OSD_initial))"

definition osd_second_added :: OSD where
  "osd_second_added =
     AddTypedMessage 2 20 0 ''second'' 0 0xFFFFFFFF None [] False 1 osd_first_drawn"

definition osd_second_drawn :: OSD where
  "osd_second_drawn = fst (DrawMessages_all io_visible True 30 osd_second_added)"

section \<open>The loop of the draw pass\<close>

declare DrawMessages_loop.simps [simp del]

lemma loop_done_forward:
  "\<not> reversed s \<Longrightarrow> right st = [] \<Longrightarrow> DrawMessages_loop io d now s st = st"
  by (subst DrawMessages_loop.simps) simp

lemma loop_step_forward:
  "\<not> reversed s \<Longrightarrow> right st = e # rest \<Longrightarrow>
   DrawMessages_loop io d now s st =
     (if pruned now (snd e)
      then DrawMessages_loop io d now s
             (st\<lparr>right := rest, effects := effects st @ [Erased (fst e) (snd e)]\<rparr>)
      else if d
      then (let drawn = DrawMessage io (index st) (snd e) (current_x st, current_y st)
                          (narrow_to_int (TimeRemaining now (snd e))) s;
                c = advance s (current_x st, current_y st) (fst drawn)
            in DrawMessages_loop io d now s
                 (st\<lparr>left := (fst e, fst (snd drawn)) # left st, right := rest,
                     index := index st + 1,
                     effects := effects st @ [Drawn (snd (snd drawn))],
                     current_y := snd c, current_x := fst c\<rparr>))
      else DrawMessages_loop io d now s (st\<lparr>left := e # left st, right := rest\<rparr>))"
  by (subst DrawMessages_loop.simps) (simp add: Let_def pruned_def advance_def)

lemma loop_done_reversed:
  "reversed s \<Longrightarrow> left st = [] \<Longrightarrow> DrawMessages_loop io d now s st = st"
  by (subst DrawMessages_loop.simps) simp

lemma loop_step_reversed:
  "reversed s \<Longrightarrow> left st = e # rest \<Longrightarrow>
   DrawMessages_loop io d now s st =
     (if pruned now (snd e)
      then DrawMessages_loop io d now s
             (st\<lparr>left := rest, effects := effects st @ [Erased (fst e) (snd e)]\<rparr>)
      else if d
      then (let drawn = DrawMessage io (index st) (snd e) (current_x st, current_y st)
                          (narrow_to_int (TimeRemaining now (snd e))) s;
                c = advance s (current_x st, current_y st) (fst drawn)
            in DrawMessages_loop io d now s
                 (st\<lparr>left := rest, right := (fst e, fst (snd drawn)) # right st,
                     index := index st + 1,
                     effects := effects st @ [Drawn (snd (snd drawn))],
                     current_y := snd c, current_x := fst c\<rparr>))
      else DrawMessages_loop io d now s (st\<lparr>left := rest, right := e # right st\<rparr>))"
  by (subst DrawMessages_loop.simps) (simp add: Let_def pruned_def advance_def)

lemma loop_forward:
  "\<not> reversed s \<Longrightarrow> right st = es \<Longrightarrow>
   left (DrawMessages_loop io d now s st)
     = rev (fst (visit io d now s (current_x st, current_y st) (index st) es)) @ left st
   \<and> right (DrawMessages_loop io d now s st) = []
   \<and> effects (DrawMessages_loop io d now s st)
     = effects st @ snd (visit io d now s (current_x st, current_y st) (index st) es)"
proof (induction es arbitrary: st)
  case Nil
  then show ?case by (simp add: loop_done_forward)
next
  case (Cons e es)
  show ?case
  proof (cases "pruned now (snd e)")
    case True
    with Cons.prems Cons.IH [of "st\<lparr>right := es, effects := effects st @ [Erased (fst e) (snd e)]\<rparr>"]
    show ?thesis by (simp add: loop_step_forward Let_def)
  next
    case False
    show ?thesis
    proof (cases d)
      case True
      define drawn where "drawn = DrawMessage io (index st) (snd e) (current_x st, current_y st)
                          (narrow_to_int (TimeRemaining now (snd e))) s"
      define c where "c = advance s (current_x st, current_y st) (fst drawn)"
      from Cons.prems \<open>\<not> pruned now (snd e)\<close> True
        Cons.IH [of "st\<lparr>left := (fst e, fst (snd drawn)) # left st, right := es,
                     index := index st + 1,
                     effects := effects st @ [Drawn (snd (snd drawn))],
                     current_y := snd c, current_x := fst c\<rparr>"]
      show ?thesis
        by (simp add: loop_step_forward Let_def drawn_def [symmetric] c_def [symmetric])
    next
      case False
      with Cons.prems \<open>\<not> pruned now (snd e)\<close>
        Cons.IH [of "st\<lparr>left := e # left st, right := es\<rparr>"]
      show ?thesis by (simp add: loop_step_forward Let_def)
    qed
  qed
qed

lemma loop_reversed:
  "reversed s \<Longrightarrow> left st = es \<Longrightarrow>
   right (DrawMessages_loop io d now s st)
     = rev (fst (visit io d now s (current_x st, current_y st) (index st) es)) @ right st
   \<and> left (DrawMessages_loop io d now s st) = []
   \<and> effects (DrawMessages_loop io d now s st)
     = effects st @ snd (visit io d now s (current_x st, current_y st) (index st) es)"
proof (induction es arbitrary: st)
  case Nil
  then show ?case by (simp add: loop_done_reversed)
next
  case (Cons e es)
  show ?case
  proof (cases "pruned now (snd e)")
    case True
    with Cons.prems Cons.IH [of "st\<lparr>left := es, effects := effects st @ [Erased (fst e) (snd e)]\<rparr>"]
    show ?thesis by (simp add: loop_step_reversed Let_def)
  next
    case False
    show ?thesis
    proof (cases d)
      case True
      define drawn where "drawn = DrawMessage io (index st) (snd e) (current_x st, current_y st)
                          (narrow_to_int (TimeRemaining now (snd e))) s"
      define c where "c = advance s (current_x st, current_y st) (fst drawn)"
      from Cons.prems \<open>\<not> pruned now (snd e)\<close> True
        Cons.IH [of "st\<lparr>left := es, right := (fst e, fst (snd drawn)) # right st,
                     index := index st + 1,
                     effects := effects st @ [Drawn (snd (snd drawn))],
                     current_y := snd c, current_x := fst c\<rparr>"]
      show ?thesis
        by (simp add: loop_step_reversed Let_def drawn_def [symmetric] c_def [symmetric])
    next
      case False
      with Cons.prems \<open>\<not> pruned now (snd e)\<close>
        Cons.IH [of "st\<lparr>left := es, right := e # right st\<rparr>"]
      show ?thesis by (simp add: loop_step_reversed Let_def)
    qed
  qed
qed

lemma DrawMessages_visit:
  "DrawMessages io d now ol ot s =
     (let r = visit io d now s (start_cursor io ol ot s) 0 (visiting_order s)
      in (s\<lparr>messages := (if reversed s then rev (fst r) else fst r)\<rparr>, snd r))"
proof (cases "reversed s")
  case True
  then show ?thesis
    using loop_reversed [of s "\<lparr>left = rev (messages s), right = [],
            current_x = fst (start_cursor io ol ot s), current_y = snd (start_cursor io ol ot s),
            index = 0, effects = []\<rparr>" "rev (messages s)" io d now]
    by (simp add: DrawMessages_def Let_def start_cursor_def visiting_order_def)
next
  case False
  then show ?thesis
    using loop_forward [of s "\<lparr>left = [], right = messages s,
            current_x = fst (start_cursor io ol ot s), current_y = snd (start_cursor io ol ot s),
            index = 0, effects = []\<rparr>" "messages s" io d now]
    by (simp add: DrawMessages_def Let_def start_cursor_def visiting_order_def)
qed

section \<open>Helper facts\<close>

subsection \<open>Remaining time and the removal test\<close>

lemma HasMessage_loop_iff:
  "HasMessage_loop es message mtype \<longleftrightarrow> (\<exists>e\<in>set es. fst e = mtype \<and> msg_text (snd e) = message)"
  by (induction es) auto

lemma deref_target:
  "deref osd (if contains (messageStacks osd) n then NamedStack n else DefaultStack) =
     (if contains (messageStacks osd) n then stack_at (messageStacks osd) n
      else s_defaultMessageStack osd)"
  by (simp add: deref_def)

lemma TimeRemaining_exact:
  assumes "now - timer m < 2 ^ 63"
  shows "TimeRemaining now m = uint (duration m) - int (now - timer m)"
proof -
  define e where "e = int (now - timer m)"
  define v where "v = uint (duration m) - e"
  have d: "uint (duration m) < 4294967296" "0 \<le> uint (duration m)"
    using uint_bounded [of "duration m"] by simp_all
  have e: "e < 9223372036854775808" "0 \<le> e"
    using assms by (simp_all add: e_def)
  have range: "- 9223372036854775808 \<le> v" "v < 9223372036854775808"
    using d e unfolding v_def by linarith+
  have "(ucast (duration m) :: u64) - ElapsedMs now (timer m) = word_of_int v"
    by (simp add: ElapsedMs_def v_def e_def)
  then have "TimeRemaining now m = signed_take_bit 63 v"
    by (simp add: TimeRemaining_def sint_sbintrunc')
  also have "\<dots> = v"
    using range by (intro signed_take_bit_int_eq_self) simp_all
  finally show ?thesis by (simp add: v_def e_def)
qed

lemma drop_time_compare: "MESSAGE_DROP_TIME \<le> of_int x \<longleftrightarrow> 5000 \<le> x"
  by (simp add: MESSAGE_DROP_TIME_def)

lemma expired_iff:
  "expired m t \<longleftrightarrow> t \<le> 0 \<and> (ever_drawn m \<or> 5000 \<le> - t)"
  by (simp add: expired_def drop_time_compare del: of_int_minus)

subsection \<open>What \<^verbatim>\<open>DrawMessage\<close> changes and sends\<close>

lemma DrawMessage_message:
  "fst (snd (DrawMessage io i m c t s)) =
     (if ImGui_Begin io (c_str (format_window_name (name s) i)) then materialize_icon io m else m)
       \<lparr>ever_drawn := True\<rparr>"
  by (simp add: DrawMessage_def Let_def)

lemma materialize_icon_fields:
  "msg_text (materialize_icon io m) = msg_text m"
  "timer (materialize_icon io m) = timer m"
  "duration (materialize_icon io m) = duration m"
  "color (materialize_icon io m) = color m"
  "msg_scale (materialize_icon io m) = msg_scale m"
  "should_discard (materialize_icon io m) = should_discard m"
  "ever_drawn (materialize_icon io m) = ever_drawn m"
  by (simp_all add: materialize_icon_def split: option.splits)

lemma DrawMessage_identity:
  "identity (k, fst (snd (DrawMessage io i m c t s))) = identity (k, m)"
  by (simp add: DrawMessage_message identity_def materialize_icon_fields)

lemma DrawMessage_ever_drawn:
  "ever_drawn (fst (snd (DrawMessage io i m c t s)))"
  by (simp add: DrawMessage_message)

lemma DrawMessage_should_discard:
  "should_discard (fst (snd (DrawMessage io i m c t s))) = should_discard m"
  by (simp add: DrawMessage_message materialize_icon_fields)

lemma DrawMessage_call:
  "window_name (snd (snd (DrawMessage io i m c t s))) = c_str (format_window_name (name s) i)"
  "style_alpha (snd (snd (DrawMessage io i m c t s))) = (if ever_drawn m then fade_alpha m t else 1)"
  "content (snd (snd (DrawMessage io i m c t s))) = None
     \<longleftrightarrow> \<not> ImGui_Begin io (c_str (format_window_name (name s) i))"
  by (simp_all add: DrawMessage_def Let_def)

lemma DrawMessage_size:
  "fst (DrawMessage io i m c t s) =
     (if ImGui_Begin io (c_str (format_window_name (name s) i))
      then (fst (ImGui_GetWindowSize io (c_str (format_window_name (name s) i)))
              + 4 * fst (DisplayFramebufferScale io),
            snd (ImGui_GetWindowSize io (c_str (format_window_name (name s) i)))
              + 4 * snd (DisplayFramebufferScale io))
      else (0, 0))"
  by (simp add: DrawMessage_def Let_def WINDOW_PADDING_def)

subsection \<open>What a pass keeps, erases and draws\<close>

lemma visit_not_drawing:
  "visit io False now s c i es
     = (filter (\<lambda>e. \<not> pruned now (snd e)) es,
        map (\<lambda>e. Erased (fst e) (snd e)) (filter (\<lambda>e. pruned now (snd e)) es))"
  by (induction es arbitrary: c i) (simp_all add: Let_def)

lemma visit_identity_drawing:
  "map identity (fst (visit io True now s c i es))
     = map identity (filter (\<lambda>e. \<not> pruned now (snd e)) es)"
proof (induction es arbitrary: c i)
  case Nil
  show ?case by simp
next
  case (Cons e es)
  have "identity (fst e, snd e) = identity e" by simp
  with Cons show ?case
    by (simp add: Let_def DrawMessage_identity del: prod.collapse)
qed

lemma visit_identity:
  "map identity (fst (visit io d now s c i es))
     = map identity (filter (\<lambda>e. \<not> pruned now (snd e)) es)"
  by (cases d) (simp_all add: visit_identity_drawing visit_not_drawing)

lemma visit_ever_drawn_drawing:
  "map (\<lambda>e. ever_drawn (snd e)) (fst (visit io True now s c i es))
     = map (\<lambda>e. True) (filter (\<lambda>e. \<not> pruned now (snd e)) es)"
  by (induction es arbitrary: c i) (simp_all add: Let_def DrawMessage_ever_drawn)

lemma visit_ever_drawn:
  "map (\<lambda>e. ever_drawn (snd e)) (fst (visit io d now s c i es))
     = map (\<lambda>e. ever_drawn (snd e) \<or> d) (filter (\<lambda>e. \<not> pruned now (snd e)) es)"
  by (cases d) (simp_all add: visit_ever_drawn_drawing visit_not_drawing)

lemma visit_should_discard_drawing:
  "filter (\<lambda>e. should_discard (snd e)) (fst (visit io True now s c i es)) = []"
  by (induction es arbitrary: c i)
     (simp_all add: Let_def DrawMessage_should_discard pruned_def)

lemma visit_should_discard:
  "filter (\<lambda>e. should_discard (snd e)) (fst (visit io d now s c i es)) = []"
  by (cases d)
     (auto simp: visit_should_discard_drawing visit_not_drawing pruned_def filter_empty_conv)

lemma visit_erased_drawing:
  "erased_entries (snd (visit io True now s c i es)) = filter (\<lambda>e. pruned now (snd e)) es"
  by (induction es arbitrary: c i) (simp_all add: Let_def)

lemma erased_entries_map: "erased_entries (map (\<lambda>e. Erased (fst e) (snd e)) es) = es"
  by (induction es) simp_all

lemma visit_erased:
  "erased_entries (snd (visit io d now s c i es)) = filter (\<lambda>e. pruned now (snd e)) es"
  by (cases d) (simp_all add: visit_erased_drawing visit_not_drawing erased_entries_map)




lemma osd_replaced_eq:
  "osd_replaced = OSD_initial\<lparr>s_defaultMessageStack :=
     OSDMessageStack_default\<lparr>messages := [(0, msg_old\<lparr>should_discard := True\<rparr>), (0, msg_new)]\<rparr>\<rparr>"
  by code_simp

lemma osd_zero_eq:
  "osd_zero = OSD_initial\<lparr>s_defaultMessageStack :=
     OSDMessageStack_default\<lparr>messages := [(2, msg_zero)]\<rparr>\<rparr>"
  by code_simp

lemmas evaluation =
  DrawMessages_all_def DrawMessages_visit Let_def OSD_initial_def OSDMessageStack_default_def
  OSDMessageStack_new_def visiting_order_def pruned_def expired_iff TimeRemaining_exact
  Message_new_def start_cursor_def

lemma pruned_iff:
  "pruned now m \<longleftrightarrow>
     should_discard m \<or> (TimeRemaining now m \<le> 0 \<and> (ever_drawn m \<or> 5000 \<le> - TimeRemaining now m))"
  by (simp add: pruned_def expired_iff)

lemma DrawMessages_identity:
  "map identity (messages (fst (DrawMessages io d now ol ot s)))
     = map identity (filter (\<lambda>e. \<not> pruned now (snd e)) (messages s))"
  by (simp add: DrawMessages_visit Let_def visiting_order_def visit_identity rev_map [symmetric]
      rev_filter [symmetric])

lemma DrawMessages_ever_drawn:
  "map (\<lambda>e. ever_drawn (snd e)) (messages (fst (DrawMessages io d now ol ot s)))
     = map (\<lambda>e. ever_drawn (snd e) \<or> d) (filter (\<lambda>e. \<not> pruned now (snd e)) (messages s))"
  by (simp add: DrawMessages_visit Let_def visiting_order_def visit_ever_drawn
      rev_map [symmetric] rev_filter [symmetric])

lemma DrawMessages_erased:
  "erased_entries (snd (DrawMessages io d now ol ot s))
     = filter (\<lambda>e. pruned now (snd e)) (visiting_order s)"
  by (simp add: DrawMessages_visit Let_def visit_erased)

lemma zero_duration_expired:
  assumes "duration m = 0" and "now - timer m < 2 ^ 63"
  shows "(TimeRemaining now m \<le> 0 \<and> (ever_drawn m \<or> 5000 \<le> - TimeRemaining now m))
           \<longleftrightarrow> (ever_drawn m \<or> 5000 \<le> now - timer m)"
  using assms by (auto simp: TimeRemaining_exact)

lemma osd_long_eq:
  "osd_long = OSD_initial\<lparr>s_defaultMessageStack :=
     OSDMessageStack_default\<lparr>messages := [(2, msg_long)]\<rparr>\<rparr>"
  by code_simp

lemma narrow_to_int_in_range:
  "- (2 ^ 31) \<le> t \<Longrightarrow> t < 2 ^ 31 \<Longrightarrow> narrow_to_int t = t"
  by (simp add: narrow_to_int_def sint_sbintrunc' signed_take_bit_int_eq_self)

lemma fade_time_clamp:
  "fade_time m = std_clamp (of_nat (unat (duration m))) 1 1000"
  by (auto simp: fade_time_def std_clamp_def MESSAGE_FADE_TIME_def)

text \<open>
  The alpha pushed for each window of a pass, and the fade of C2 where the remaining time
  fits the 32-bit parameter of \<^verbatim>\<open>DrawMessage\<close>.
\<close>

lemma visit_alphas:
  "map style_alpha (drawn_calls (snd (visit io True now s c i es)))
     = map (\<lambda>e. if ever_drawn (snd e)
                 then fade_alpha (snd e) (narrow_to_int (TimeRemaining now (snd e))) else 1)
         (filter (\<lambda>e. \<not> pruned now (snd e)) es)"
  by (induction es arbitrary: c i) (simp_all add: Let_def DrawMessage_call)

lemma DrawMessages_alphas:
  "map style_alpha (drawn_calls (snd (DrawMessages io True now ol ot s)))
     = map (\<lambda>e. if ever_drawn (snd e)
                 then fade_alpha (snd e) (narrow_to_int (TimeRemaining now (snd e))) else 1)
         (filter (\<lambda>e. \<not> pruned now (snd e)) (visiting_order s))"
  by (simp add: DrawMessages_visit Let_def visit_alphas)

lemma fade_alpha_as_specified:
  assumes "- (2 ^ 31) \<le> TimeRemaining now m" and "TimeRemaining now m < 2 ^ 31"
  shows "fade_alpha m (narrow_to_int (TimeRemaining now m))
           = std_clamp (of_int (TimeRemaining now m)
                         / std_clamp (of_nat (unat (duration m))) 1 1000) 0 1"
  using assms by (simp add: fade_alpha_def narrow_to_int_in_range fade_time_clamp)

lemma narrow_to_int_wraps: "narrow_to_int 4294967279 = - 17"
  by (simp add: narrow_to_int_def)

subsection \<open>The stack a call works on\<close>

lemma contains_stack_store: "contains (stack_store n s stacks) k = contains stacks k"
  by (induction stacks) (auto simp: contains_def)

lemma stack_at_stack_store:
  "contains stacks n \<Longrightarrow> stack_at (stack_store n s stacks) n = s"
  by (induction stacks) (auto simp: contains_def stack_at_def)

lemma stack_at_stack_store_other:
  "k \<noteq> n \<Longrightarrow> stack_at (stack_store n s stacks) k = stack_at stacks k"
  by (induction stacks) (auto simp: stack_at_def)

lemma multimap_emplace_split:
  "multimap_emplace k v es
     = takeWhile (\<lambda>e. fst e \<le> k) es @ [(k, v)] @ dropWhile (\<lambda>e. fst e \<le> k) es"
  by (induction es) simp_all

lemma mark_equal_range_map:
  "mark_equal_range k es
     = map (\<lambda>e. if fst e = k then (fst e, (snd e)\<lparr>should_discard := True\<rparr>) else e) es"
  by (induction es) simp_all

lemma AddTypedMessage_suppressed:
  "prevent_duplicate \<Longrightarrow> HasMessage (target osd n) message mtype \<Longrightarrow>
   AddTypedMessage T now mtype message ms argb ic n prevent_duplicate sc osd = osd"
  by (simp add: AddTypedMessage_def Let_def deref_target target_def [symmetric])

lemma AddTypedMessage_default:
  assumes "\<not> contains (messageStacks osd) n"
    and "\<not> (prevent_duplicate \<and> HasMessage (s_defaultMessageStack osd) message mtype)"
  shows "AddTypedMessage T now mtype message ms argb ic n prevent_duplicate sc osd =
     osd\<lparr>s_defaultMessageStack := (s_defaultMessageStack osd)\<lparr>messages :=
       multimap_emplace mtype (Message_new now message ms argb ic sc)
         (if mtype \<noteq> T then mark_equal_range mtype (messages (s_defaultMessageStack osd))
          else messages (s_defaultMessageStack osd))\<rparr>\<rparr>"
  using assms by (auto simp: AddTypedMessage_def deref_def store_def Let_def)

lemma AddTypedMessage_named:
  assumes "contains (messageStacks osd) n"
    and "\<not> (prevent_duplicate \<and> HasMessage (stack_at (messageStacks osd) n) message mtype)"
  shows "AddTypedMessage T now mtype message ms argb ic n prevent_duplicate sc osd =
     osd\<lparr>messageStacks := stack_store n ((stack_at (messageStacks osd) n)\<lparr>messages :=
       multimap_emplace mtype (Message_new now message ms argb ic sc)
         (if mtype \<noteq> T then mark_equal_range mtype (messages (stack_at (messageStacks osd) n))
          else messages (stack_at (messageStacks osd) n))\<rparr>) (messageStacks osd)\<rparr>"
  using assms by (auto simp: AddTypedMessage_def deref_def store_def Let_def)

lemma AddTypedMessage_target:
  assumes "\<not> (prevent_duplicate \<and> HasMessage (target osd n) message mtype)"
  shows "target (AddTypedMessage T now mtype message ms argb ic n prevent_duplicate sc osd) n =
     (target osd n)\<lparr>messages :=
       multimap_emplace mtype (Message_new now message ms argb ic sc)
         (if mtype \<noteq> T then mark_equal_range mtype (messages (target osd n))
          else messages (target osd n))\<rparr>"
proof (cases "contains (messageStacks osd) n")
  case True
  with assms show ?thesis
    by (simp add: AddTypedMessage_named target_def contains_stack_store stack_at_stack_store)
next
  case False
  with assms show ?thesis
    by (simp add: AddTypedMessage_default target_def)
qed

lemma filter_key_identity:
  "map identity (filter (\<lambda>e. fst e = k) xs) = filter (\<lambda>i. fst i = k) (map identity xs)"
  by (induction xs) (simp_all add: identity_def)

lemma filter_key_after_pass:
  "map identity (filter (\<lambda>e. fst e = k) (messages (fst (DrawMessages io d now ol ot s))))
     = map identity (filter (\<lambda>e. fst e = k \<and> \<not> pruned now (snd e)) (messages s))"
proof -
  have "map identity (filter (\<lambda>e. fst e = k) (messages (fst (DrawMessages io d now ol ot s))))
          = filter (\<lambda>i. fst i = k)
              (map identity (filter (\<lambda>e. \<not> pruned now (snd e)) (messages s)))"
    by (simp only: filter_key_identity DrawMessages_identity)
  also have "\<dots> = map identity
              (filter (\<lambda>e. fst e = k) (filter (\<lambda>e. \<not> pruned now (snd e)) (messages s)))"
    by (simp only: filter_key_identity)
  also have "\<dots> = map identity
              (filter (\<lambda>e. fst e = k \<and> \<not> pruned now (snd e)) (messages s))"
    by (simp add: conj_commute)
  finally show ?thesis .
qed

lemma DrawMessages_should_discard:
  "filter (\<lambda>e. should_discard (snd e)) (messages (fst (DrawMessages io d now ol ot s))) = []"
  using visit_should_discard [of io d now s "start_cursor io ol ot s" 0 "visiting_order s"]
  by (auto simp: DrawMessages_visit Let_def filter_empty_conv)

lemma marked_pruned:
  "filter (\<lambda>e. should_discard (snd e)) (filter (\<lambda>e. pruned now (snd e)) xs)
     = filter (\<lambda>e. should_discard (snd e)) xs"
  by (induction xs) (simp_all add: pruned_def)

subsection \<open>Reversed stacks and the order of the collection\<close>












lemma osd_reversed_CD_eq:
  "osd_reversed_CD = OSD_initial\<lparr>messageStacks :=
     [(''r'', (OSDMessageStack_new 0 0 Downward False True ''r'')
                \<lparr>messages := [(0, msg_B), (1, msg_A), (2, msg_C), (2, msg_D)]\<rparr>)]\<rparr>"
  by code_simp

lemma format_nat_digit: "n < 10 \<Longrightarrow> format_nat n = [''0123456789'' ! n]"
  by simp

declare format_nat.simps [simp del]

lemmas draw_evaluation =
  DrawMessage_def format_window_name_def c_str_def format_nat_digit materialize_icon_def
  fade_alpha_def fade_time_def
  std_clamp_def MESSAGE_FADE_TIME_def WINDOW_PADDING_def LEFT_MARGIN_def TOP_MARGIN_def
  advance_def IsVertical_def ARGBToImVec4_def

lemma DrawMessages_not_drawing:
  "DrawMessages io False now ol ot s
     = (s\<lparr>messages := filter (\<lambda>e. \<not> pruned now (snd e)) (messages s)\<rparr>,
        map (\<lambda>e. Erased (fst e) (snd e)) (filter (\<lambda>e. pruned now (snd e)) (visiting_order s)))"
  by (simp add: DrawMessages_visit Let_def visit_not_drawing visiting_order_def rev_filter)



lemma contains_map_emplace: "contains (map_emplace n s stacks) k \<longleftrightarrow> k = n \<or> contains stacks k"
  by (induction stacks) (auto simp: contains_def)

lemma emplace_keeps_old:
  "\<exists>us vs. multimap_emplace k v (if k \<noteq> T then mark_equal_range k es else es)
              = us @ [(k, v)] @ vs
           \<and> map identity (us @ vs) = map identity es"
proof -
  define marked where "marked = (if k \<noteq> T then mark_equal_range k es else es)"
  have "map identity marked = map identity es"
    by (simp add: marked_def mark_equal_range_map identity_def)
  moreover have "multimap_emplace k v marked
      = takeWhile (\<lambda>e. fst e \<le> k) marked @ [(k, v)] @ dropWhile (\<lambda>e. fst e \<le> k) marked"
    by (rule multimap_emplace_split)
  moreover have "takeWhile (\<lambda>e. fst e \<le> k) marked @ dropWhile (\<lambda>e. fst e \<le> k) marked = marked"
    by simp
  ultimately show ?thesis
    unfolding marked_def [symmetric] by metis
qed

lemma AddTypedMessage_unregistered:
  assumes "\<not> contains (messageStacks osd) n"
  shows "messageStacks (AddTypedMessage T now mtype message ms argb ic n pd sc osd)
           = messageStacks osd"
    and "pd \<and> HasMessage (s_defaultMessageStack osd) message mtype \<Longrightarrow>
           AddTypedMessage T now mtype message ms argb ic n pd sc osd = osd"
    and "\<not> (pd \<and> HasMessage (s_defaultMessageStack osd) message mtype) \<Longrightarrow>
           \<exists>us vs. messages (s_defaultMessageStack
                       (AddTypedMessage T now mtype message ms argb ic n pd sc osd))
                     = us @ [(mtype, Message_new now message ms argb ic sc)] @ vs
                  \<and> map identity (us @ vs) = map identity (messages (s_defaultMessageStack osd))"
proof -
  show "messageStacks (AddTypedMessage T now mtype message ms argb ic n pd sc osd)
           = messageStacks osd"
    using assms by (auto simp: AddTypedMessage_def deref_def store_def Let_def)
  show "AddTypedMessage T now mtype message ms argb ic n pd sc osd = osd"
    if "pd \<and> HasMessage (s_defaultMessageStack osd) message mtype"
    using assms that by (simp add: AddTypedMessage_suppressed target_def)
  show "\<exists>us vs. messages (s_defaultMessageStack
                       (AddTypedMessage T now mtype message ms argb ic n pd sc osd))
                     = us @ [(mtype, Message_new now message ms argb ic sc)] @ vs
                  \<and> map identity (us @ vs) = map identity (messages (s_defaultMessageStack osd))"
    if "\<not> (pd \<and> HasMessage (s_defaultMessageStack osd) message mtype)"
    using emplace_keeps_old [of mtype "Message_new now message ms argb ic sc" T
        "messages (s_defaultMessageStack osd)"]
    by (simp add: AddTypedMessage_default [OF assms that])
qed

lemma AddTypedMessage_registered:
  assumes "contains (messageStacks osd) n"
  shows "s_defaultMessageStack (AddTypedMessage T now mtype message ms argb ic n pd sc osd)
           = s_defaultMessageStack osd"
    and "pd \<and> HasMessage (stack_at (messageStacks osd) n) message mtype \<Longrightarrow>
           AddTypedMessage T now mtype message ms argb ic n pd sc osd = osd"
    and "\<not> (pd \<and> HasMessage (stack_at (messageStacks osd) n) message mtype) \<Longrightarrow>
           \<exists>us vs. messages (stack_at (messageStacks
                       (AddTypedMessage T now mtype message ms argb ic n pd sc osd)) n)
                     = us @ [(mtype, Message_new now message ms argb ic sc)] @ vs
                  \<and> map identity (us @ vs)
                      = map identity (messages (stack_at (messageStacks osd) n))"
proof -
  show "s_defaultMessageStack (AddTypedMessage T now mtype message ms argb ic n pd sc osd)
           = s_defaultMessageStack osd"
    using assms by (auto simp: AddTypedMessage_def deref_def store_def Let_def)
  show "AddTypedMessage T now mtype message ms argb ic n pd sc osd = osd"
    if "pd \<and> HasMessage (stack_at (messageStacks osd) n) message mtype"
    using assms that by (simp add: AddTypedMessage_suppressed target_def)
  show "\<exists>us vs. messages (stack_at (messageStacks
                       (AddTypedMessage T now mtype message ms argb ic n pd sc osd)) n)
                     = us @ [(mtype, Message_new now message ms argb ic sc)] @ vs
                  \<and> map identity (us @ vs)
                      = map identity (messages (stack_at (messageStacks osd) n))"
    if "\<not> (pd \<and> HasMessage (stack_at (messageStacks osd) n) message mtype)"
    using emplace_keeps_old [of mtype "Message_new now message ms argb ic sc" T
        "messages (stack_at (messageStacks osd) n)"] assms
    by (simp add: AddTypedMessage_named [OF assms that] stack_at_stack_store)
qed

lemma osd_empty_name_twice_eq:
  "osd_empty_name_twice = OSD_initial
     \<lparr>s_defaultMessageStack := OSDMessageStack_default\<lparr>messages := [(2, msg_hi)]\<rparr>,
      messageStacks :=
        [([], (OSDMessageStack_new 0 0 Downward False False [])\<lparr>messages := [(2, msg_late)]\<rparr>)]\<rparr>"
  by code_simp

lemma osd_unknown_name_eq:
  "osd_unknown_name = OSD_initial\<lparr>s_defaultMessageStack :=
     OSDMessageStack_default\<lparr>messages := [(2, msg_hi)]\<rparr>\<rparr>"
  by code_simp

lemma osd_marked_hi_eq:
  "osd_marked_hi = OSD_initial\<lparr>s_defaultMessageStack :=
     OSDMessageStack_default\<lparr>messages :=
       [(0, msg_hi0\<lparr>should_discard := True\<rparr>), (0, msg_bye)]\<rparr>\<rparr>"
  by code_simp

lemma osd_same_text_eq:
  "osd_same_text = OSD_initial\<lparr>s_defaultMessageStack :=
     OSDMessageStack_default\<lparr>messages :=
       [(0, msg_hi0\<lparr>should_discard := True\<rparr>), (0, msg_bye), (1, msg_hi1)]\<rparr>\<rparr>"
  by code_simp

lemma HasMessage_iff:
  "HasMessage s message mtype
     \<longleftrightarrow> (\<exists>e\<in>set (messages s). fst e = mtype \<and> msg_text (snd e) = message)"
  by (simp add: HasMessage_def HasMessage_loop_iff)

lemma kept_entry_origin:
  assumes "e' \<in> set (messages (fst (DrawMessages io d now ol ot s)))"
  shows "\<exists>e\<in>set (messages s). \<not> pruned now (snd e) \<and> identity e = identity e'"
proof -
  from assms have "identity e' \<in> set (map identity (messages (fst (DrawMessages io d now ol ot s))))"
    by simp
  then have "identity e' \<in> set (map identity (filter (\<lambda>e. \<not> pruned now (snd e)) (messages s)))"
    by (simp only: DrawMessages_identity)
  then show ?thesis by auto
qed

subsection \<open>The layout of a downward stack\<close>

lemma DrawMessage_downward:
  assumes "dir s = Downward" and "\<not> centered s"
  shows "window_positions [snd (snd (DrawMessage io i m c t s))]
           = (if ImGui_Begin io (c_str (format_window_name (name s) i))
              then [(c_str (format_window_name (name s) i), c)] else [])"
    and "advance s c (fst (DrawMessage io i m c t s))
           = (fst c,
              snd c + (if ImGui_Begin io (c_str (format_window_name (name s) i))
                       then snd (ImGui_GetWindowSize io (c_str (format_window_name (name s) i)))
                              + 4 * snd (DisplayFramebufferScale io)
                       else 0))"
  using assms
  by (simp_all add: DrawMessage_def Let_def advance_def IsVertical_def WINDOW_PADDING_def)

lemma window_positions_Cons:
  "window_positions (c # cs) = window_positions [c] @ window_positions cs"
  by (simp split: option.splits)

lemma visit_downward:
  assumes "dir s = Downward" and "\<not> centered s"
  shows "(\<forall>p\<in>set (window_positions (drawn_calls (snd (visit io True now s (x, y) i es)))).
            fst (snd p) = x)
       \<and> (window_positions (drawn_calls (snd (visit io True now s (x, y) i es))) \<noteq> [] \<longrightarrow>
            snd (snd (hd (window_positions
                            (drawn_calls (snd (visit io True now s (x, y) i es)))))) = y)
       \<and> successively
            (\<lambda>p q. snd (snd q) = snd (snd p) + snd (ImGui_GetWindowSize io (fst p))
                                    + 4 * snd (DisplayFramebufferScale io))
            (window_positions (drawn_calls (snd (visit io True now s (x, y) i es))))"
proof (induction es arbitrary: y i)
  case Nil
  show ?case by simp
next
  case (Cons e es)
  show ?case
  proof (cases "pruned now (snd e)")
    case True
    with Cons.IH [of y i] show ?thesis by (simp add: Let_def)
  next
    case False
    define w where "w = c_str (format_window_name (name s) i)"
    define t where "t = narrow_to_int (TimeRemaining now (snd e))"
    show ?thesis
    proof (cases "ImGui_Begin io w")
      case True
      define y' where "y' = y + snd (ImGui_GetWindowSize io w) + 4 * snd (DisplayFramebufferScale io)"
      have adv: "advance s (x, y) (fst (DrawMessage io i (snd e) (x, y) t s)) = (x, y')"
        using True by (simp add: DrawMessage_downward(2) [OF assms] w_def y'_def)
      have pos: "window_positions [snd (snd (DrawMessage io i (snd e) (x, y) t s))] = [(w, (x, y))]"
        using True
        by (simp add: DrawMessage_downward(1) [OF assms] w_def del: window_positions.simps)
      define rest where
        "rest = window_positions (drawn_calls (snd (visit io True now s (x, y') (i + 1) es)))"
      have all: "window_positions (drawn_calls (snd (visit io True now s (x, y) i (e # es))))
                   = (w, (x, y)) # rest"
        using False pos
        by (subst visit.simps)
           (simp add: Let_def t_def [symmetric] adv rest_def
              window_positions_Cons [of _ "drawn_calls _"] del: window_positions.simps)
      from Cons.IH [of y' "i + 1"] show ?thesis
        unfolding all rest_def [symmetric]
        by (auto simp: successively_Cons y'_def)
    next
      case False
      have adv: "advance s (x, y) (fst (DrawMessage io i (snd e) (x, y) t s)) = (x, y)"
        using False by (simp add: DrawMessage_downward(2) [OF assms] w_def)
      have pos: "window_positions [snd (snd (DrawMessage io i (snd e) (x, y) t s))] = []"
        using False
        by (simp add: DrawMessage_downward(1) [OF assms] w_def del: window_positions.simps)
      have all: "window_positions (drawn_calls (snd (visit io True now s (x, y) i (e # es))))
                   = window_positions (drawn_calls (snd (visit io True now s (x, y) (i + 1) es)))"
        using \<open>\<not> pruned now (snd e)\<close> pos
        by (subst visit.simps)
           (simp add: Let_def t_def [symmetric] adv
              window_positions_Cons [of _ "drawn_calls _"] del: window_positions.simps)
      from Cons.IH [of y "i + 1"] show ?thesis
        unfolding all by simp
    qed
  qed
qed

lemma visit_positions_length:
  assumes "\<forall>w. ImGui_Begin io w"
  shows "length (window_positions (drawn_calls (snd (visit io True now s c i es))))
           = length (filter (\<lambda>e. \<not> pruned now (snd e)) es)"
proof (induction es arbitrary: c i)
  case Nil
  show ?case by simp
next
  case (Cons e es)
  have "content (snd (snd (DrawMessage io i (snd e) c t s))) \<noteq> None" for t
    using assms by (simp add: DrawMessage_call)
  then have "length (window_positions [snd (snd (DrawMessage io i (snd e) c t s))]) = 1" for t
    by (auto split: option.splits)
  with Cons show ?case
    by (simp add: Let_def window_positions_Cons [of _ "drawn_calls _"]
        del: window_positions.simps)
qed

lemma increasing_positions:
  fixes f :: "'a \<Rightarrow> rat"
  assumes "successively (\<lambda>p q. f q = f p + g p) ps" and "\<forall>p. 0 \<le> g p"
  shows "sorted (map f ps)"
proof -
  have "successively (\<lambda>p q. f p \<le> f q) ps"
    using assms(1)
  proof (rule successively_mono)
    fix p q assume "f q = f p + g p"
    with assms(2) [rule_format, of p] show "f p \<le> f q" by simp
  qed
  moreover have "transp (\<lambda>p q. f p \<le> f q)"
    by (auto simp: transp_def)
  ultimately have "sorted_wrt (\<lambda>p q. f p \<le> f q) ps"
    by (simp add: successively_conv_sorted_wrt)
  then show ?thesis
    by (simp add: sorted_map)
qed

lemma stack_r_eq:
  "target osd_reversed_CD ''r''
     = (OSDMessageStack_new 0 0 Downward False True ''r'')
         \<lparr>messages := [(0, msg_B), (1, msg_A), (2, msg_C), (2, msg_D)]\<rparr>"
  by (simp add: osd_reversed_CD_eq target_def contains_def stack_at_def OSD_initial_def)

lemma frames_not_drawing:
  assumes "\<forall>f\<in>set fs. \<not> fst f"
  shows "messages (DrawMessages_frames io fs ol ot s)
           = filter (\<lambda>e. \<forall>f\<in>set fs. \<not> pruned (snd f) (snd e)) (messages s)"
  using assms
proof (induction fs arbitrary: s)
  case Nil
  show ?case by simp
next
  case (Cons f fs)
  from Cons.prems have f: "fst f = False" and fs: "\<forall>f\<in>set fs. \<not> fst f"
    by simp_all
  have "messages (DrawMessages_frames io (f # fs) ol ot s)
          = filter (\<lambda>e. \<forall>f\<in>set fs. \<not> pruned (snd f) (snd e))
              (filter (\<lambda>e. \<not> pruned (snd f) (snd e)) (messages s))"
    by (simp add: Cons.IH [OF fs] f DrawMessages_not_drawing)
  also have "\<dots> = filter (\<lambda>e. \<forall>g\<in>set (f # fs). \<not> pruned (snd g) (snd e)) (messages s)"
    by (simp add: conj_commute)
  finally show ?case .
qed

subsection \<open>Passes over several frames\<close>

lemma pass_subseq:
  "subseq (map identity (messages (fst (DrawMessages io d now ol ot s))))
          (map identity (messages s))"
  unfolding DrawMessages_identity by (intro subseq_map subseq_filter_left)

lemma frames_subseq:
  "subseq (map identity (messages (DrawMessages_frames io fs ol ot s)))
          (map identity (messages s))"
proof (induction fs arbitrary: s)
  case Nil
  show ?case by simp
next
  case (Cons f fs)
  have "subseq (map identity (messages (DrawMessages_frames io (f # fs) ol ot s)))
               (map identity (messages (fst (DrawMessages io (fst f) (snd f) ol ot s))))"
    using Cons.IH by simp
  also have "subseq \<dots> (map identity (messages s))"
    by (rule pass_subseq)
  finally show ?case .
qed

lemma frames_subseq_key:
  "subseq (map identity (filter (\<lambda>e. fst e = k) (messages (DrawMessages_frames io fs ol ot s))))
          (map identity (filter (\<lambda>e. fst e = k) (messages s)))"
  unfolding filter_key_identity by (intro subseq_filter frames_subseq)


lemma later_frames_keep_at_most:
  assumes "map identity (filter (\<lambda>e. fst e = k)
             (messages (fst (DrawMessages io (fst f) (snd f) ol ot s)))) = []
           \<or> map identity (filter (\<lambda>e. fst e = k)
             (messages (fst (DrawMessages io (fst f) (snd f) ol ot s)))) = [i]"
  shows "subseq (map identity (filter (\<lambda>e. fst e = k)
                   (messages (DrawMessages_frames io (f # fs) ol ot s)))) [i]"
proof -
  have "subseq (map identity (filter (\<lambda>e. fst e = k)
                   (messages (DrawMessages_frames io (f # fs) ol ot s))))
               (map identity (filter (\<lambda>e. fst e = k)
                   (messages (fst (DrawMessages io (fst f) (snd f) ol ot s)))))"
    using frames_subseq_key [of k io fs ol ot "fst (DrawMessages io (fst f) (snd f) ol ot s)"]
    by simp
  also have "subseq \<dots> [i]"
    using assms by auto
  finally show ?thesis .
qed

lemma osd_first_drawn_eq:
  "osd_first_drawn = OSD_initial\<lparr>s_defaultMessageStack :=
     OSDMessageStack_default\<lparr>messages := [(0, msg_first\<lparr>ever_drawn := True\<rparr>)]\<rparr>\<rparr>"
  by (simp add: osd_first_drawn_def AddTypedMessage_def contains_def deref_def store_def
      HasMessage_def evaluation DrawMessages_named.simps msg_first_def draw_evaluation
      io_visible_def)

lemma osd_second_added_eq:
  "osd_second_added = OSD_initial\<lparr>s_defaultMessageStack :=
     OSDMessageStack_default\<lparr>messages :=
       [(0, msg_first\<lparr>ever_drawn := True, should_discard := True\<rparr>), (0, msg_second)]\<rparr>\<rparr>"
  by (simp add: osd_second_added_def osd_first_drawn_eq AddTypedMessage_def contains_def
      deref_def store_def HasMessage_def OSD_initial_def OSDMessageStack_default_def
      OSDMessageStack_new_def Let_def msg_first_def msg_second_def Message_new_def)

lemma osd_second_drawn_eq:
  "osd_second_drawn = OSD_initial\<lparr>s_defaultMessageStack :=
     OSDMessageStack_default\<lparr>messages := [(0, msg_second\<lparr>ever_drawn := True\<rparr>)]\<rparr>\<rparr>"
  by (simp add: osd_second_drawn_def osd_second_added_eq evaluation DrawMessages_named.simps
      msg_first_def msg_second_def draw_evaluation io_visible_def)

subsection \<open>The effects of a pass, entry by entry\<close>







section \<open>Claims\<close>

subsection \<open>C1\<close>

text \<open>
  C1, as amended. One draw pass keeps exactly the entries that are not marked
  \<open>should_discard\<close> and whose remaining time \<open>TimeRemaining\<close> (duration minus elapsed
  milliseconds) is not "at most 0, with \<open>ever_drawn\<close> set or at least 5000 ms past the
  end"; it keeps them in their order, and \<open>ever_drawn\<close> of a kept message is afterwards its
  old value or the toggle \<open>d\<close>. The entries erased, in visiting order, are the other ones.
  For a message of duration 0 the test is: drawn before, or 5000 ms or more since its
  creation. So while it is not marked it stays through every pass held less than 5000 ms
  after its creation until a pass with drawing enabled has drawn it, is removed by the pass
  after that, and with drawing disabled (\<open>ever_drawn\<close> stays false) it is removed by the
  first pass held 5000 ms or more after its creation. The remaining time is the exact
  difference as long as less than \<open>2 ^ 63\<close> ms have elapsed. Over a sequence of frames with
  drawing disabled, the stack keeps exactly the entries that none of the passes removes.
\<close>

theorem C1_unmarked_message_removed_exactly_when_expired:
  "map identity (messages (fst (DrawMessages io d now ol ot s)))
     = map identity
         (filter (\<lambda>e. \<not> should_discard (snd e)
                       \<and> \<not> (TimeRemaining now (snd e) \<le> 0
                             \<and> (ever_drawn (snd e) \<or> 5000 \<le> - TimeRemaining now (snd e))))
            (messages s))
   \<and> map (\<lambda>e. ever_drawn (snd e)) (messages (fst (DrawMessages io d now ol ot s)))
     = map (\<lambda>e. ever_drawn (snd e) \<or> d)
         (filter (\<lambda>e. \<not> should_discard (snd e)
                       \<and> \<not> (TimeRemaining now (snd e) \<le> 0
                             \<and> (ever_drawn (snd e) \<or> 5000 \<le> - TimeRemaining now (snd e))))
            (messages s))
   \<and> erased_entries (snd (DrawMessages io d now ol ot s))
     = filter (\<lambda>e. should_discard (snd e)
                     \<or> (TimeRemaining now (snd e) \<le> 0
                         \<and> (ever_drawn (snd e) \<or> 5000 \<le> - TimeRemaining now (snd e))))
         (visiting_order s)
   \<and> (duration m = 0 \<and> now - timer m < 2 ^ 63 \<longrightarrow>
        ((TimeRemaining now m \<le> 0 \<and> (ever_drawn m \<or> 5000 \<le> - TimeRemaining now m))
           \<longleftrightarrow> (ever_drawn m \<or> 5000 \<le> now - timer m)))
   \<and> (now - timer m < 2 ^ 63 \<longrightarrow>
        TimeRemaining now m = uint (duration m) - int (now - timer m))
   \<and> ((\<forall>f\<in>set fs. \<not> fst f) \<longrightarrow>
        messages (DrawMessages_frames io fs ol ot s)
          = filter (\<lambda>e. \<forall>f\<in>set fs.
                      \<not> should_discard (snd e)
                      \<and> \<not> (TimeRemaining (snd f) (snd e) \<le> 0
                            \<and> (ever_drawn (snd e)
                                \<or> 5000 \<le> - TimeRemaining (snd f) (snd e))))
              (messages s))"
proof -
  have p: "(\<lambda>e. \<not> pruned now (snd e))
             = (\<lambda>e. \<not> should_discard (snd e)
                     \<and> \<not> (TimeRemaining now (snd e) \<le> 0
                           \<and> (ever_drawn (snd e) \<or> 5000 \<le> - TimeRemaining now (snd e))))"
    by (simp add: pruned_iff)
  have q: "(\<lambda>e. pruned now (snd e))
             = (\<lambda>e. should_discard (snd e)
                     \<or> (TimeRemaining now (snd e) \<le> 0
                         \<and> (ever_drawn (snd e) \<or> 5000 \<le> - TimeRemaining now (snd e))))"
    by (simp add: pruned_iff)
  have r: "(\<lambda>e. \<forall>f\<in>set fs. \<not> pruned (snd f) (snd e))
             = (\<lambda>e. \<forall>f\<in>set fs.
                      \<not> should_discard (snd e)
                      \<and> \<not> (TimeRemaining (snd f) (snd e) \<le> 0
                            \<and> (ever_drawn (snd e)
                                \<or> 5000 \<le> - TimeRemaining (snd f) (snd e))))"
    by (simp add: pruned_iff)
  show ?thesis
    using DrawMessages_identity [of io d now ol ot s] DrawMessages_ever_drawn [of io d now ol ot s]
      DrawMessages_erased [of io d now ol ot s] zero_duration_expired [of m now]
      TimeRemaining_exact [of now m] frames_not_drawing [of fs io ol ot s]
    unfolding p q r by blast
qed

text \<open>
  C1 on the message of duration 0 with drawing disabled: the pass at 4999 ms keeps it,
  still never drawn; the pass at 5000 ms erases it. Through the frames at 16 and 4999 ms
  it stays; the frame at 5000 ms removes it.
\<close>

theorem C1_unmarked_message_removed_exactly_when_expired_witness:
  "duration msg_zero = 0 \<and> 5000 - timer msg_zero < 2 ^ 63
   \<and> (TimeRemaining 5000 msg_zero \<le> 0
       \<and> (ever_drawn msg_zero \<or> 5000 \<le> - TimeRemaining 5000 msg_zero))
   \<and> \<not> (TimeRemaining 4999 msg_zero \<le> 0
       \<and> (ever_drawn msg_zero \<or> 5000 \<le> - TimeRemaining 4999 msg_zero))
   \<and> messages (s_defaultMessageStack osd_zero) = [(2, msg_zero)]
   \<and> map identity (messages (fst (DrawMessages io_visible False 4999 0 0
                                     (s_defaultMessageStack osd_zero))))
     = [identity (2, msg_zero)]
   \<and> map (\<lambda>e. ever_drawn (snd e)) (messages (fst (DrawMessages io_visible False 4999 0 0
                                     (s_defaultMessageStack osd_zero))))
     = [False]
   \<and> map identity (messages (fst (DrawMessages io_visible False 5000 0 0
                                     (s_defaultMessageStack osd_zero))))
     = []
   \<and> erased_entries (snd (DrawMessages io_visible False 5000 0 0
                             (s_defaultMessageStack osd_zero)))
     = [(2, msg_zero)]
   \<and> messages (DrawMessages_frames io_visible [(False, 16), (False, 4999)] 0 0
                  (s_defaultMessageStack osd_zero))
     = [(2, msg_zero)]
   \<and> messages (DrawMessages_frames io_visible [(False, 16), (False, 4999), (False, 5000)] 0 0
                  (s_defaultMessageStack osd_zero))
     = []"
proof -
  have h: "duration msg_zero = 0" "5000 - timer msg_zero < 2 ^ 63" "4999 - timer msg_zero < 2 ^ 63"
    by (simp_all add: msg_zero_def Message_new_def)
  have e: "ever_drawn msg_zero = False" "timer msg_zero = 0" "should_discard msg_zero = False"
    by (simp_all add: msg_zero_def Message_new_def)
  have s: "messages (s_defaultMessageStack osd_zero) = [(2, msg_zero)]"
    by (simp add: osd_zero_eq)
  have t: "TimeRemaining 16 msg_zero = - 16" "TimeRemaining 4999 msg_zero = - 4999"
    "TimeRemaining 5000 msg_zero = - 5000"
    by (simp_all add: TimeRemaining_exact msg_zero_def Message_new_def)
  show ?thesis
    using h s
      C1_unmarked_message_removed_exactly_when_expired
        [of io_visible False 5000 0 0 "s_defaultMessageStack osd_zero" msg_zero
          "[(False, 16), (False, 4999), (False, 5000)]"]
      C1_unmarked_message_removed_exactly_when_expired
        [of io_visible False 4999 0 0 "s_defaultMessageStack osd_zero" msg_zero
          "[(False, 16), (False, 4999)]"]
    by (simp add: e t visiting_order_def osd_zero_eq OSDMessageStack_default_def
        OSDMessageStack_new_def)
qed

text \<open>
  C1 as stated says "for every message visited by the draw pass, the message is removed
  exactly when its remaining time is at most 0 and \<dots>". A message marked for discard is
  visited and removed with time left: after two messages of type 0 were added at clock 0,
  each for 2000 ms, the pass at clock 100 erases the first one, whose remaining time is
  1900 ms.
\<close>

theorem C1_marked_message_removed_with_time_left:
  "messages (s_defaultMessageStack osd_replaced)
     = [(0, msg_old\<lparr>should_discard := True\<rparr>), (0, msg_new)]
   \<and> TimeRemaining 100 (msg_old\<lparr>should_discard := True\<rparr>) = 1900
   \<and> erased_entries (snd (DrawMessages_all io_visible True 100 osd_replaced))
     = [(0, msg_old\<lparr>should_discard := True\<rparr>)]
   \<and> map identity (messages (s_defaultMessageStack
                              (fst (DrawMessages_all io_visible True 100 osd_replaced))))
     = [identity (0, msg_new)]"
  by (simp add: osd_replaced_eq evaluation msg_old_def msg_new_def DrawMessage_identity)

subsection \<open>C2\<close>

text \<open>
  C2, where the code departs from it. The message of duration \<^verbatim>\<open>0xFFFFFFFF\<close> ms is drawn
  by the pass at clock 0 with alpha 1 (its first draw). The pass at clock 16 draws it again:
  its remaining time is 4294967279 ms, the fade of C2 is
  \<open>clamp (4294967279 / 1000) 0 1 = 1\<close>, and the alpha pushed for the window is 0, because the
  remaining time reaches \<^verbatim>\<open>DrawMessage\<close> through a 32-bit \<^verbatim>\<open>int\<close> parameter, as \<open>- 17\<close>.
\<close>

theorem C2_long_message_drawn_with_alpha_zero:
  "messages (s_defaultMessageStack osd_long) = [(2, msg_long)]
   \<and> map style_alpha (drawn_calls (snd (DrawMessages_all io_visible True 0 osd_long))) = [1]
   \<and> map (\<lambda>e. ever_drawn (snd e))
        (messages (s_defaultMessageStack (fst (DrawMessages_all io_visible True 0 osd_long))))
     = [True]
   \<and> map style_alpha
        (drawn_calls (snd (DrawMessages_all io_visible True 16
                             (fst (DrawMessages_all io_visible True 0 osd_long)))))
     = [0]
   \<and> TimeRemaining 16 msg_long = 4294967279
   \<and> std_clamp (of_int (TimeRemaining 16 msg_long)
                  / std_clamp (of_nat (unat (duration msg_long))) 1 1000) 0 1 = 1"
  by (simp add: osd_long_eq evaluation msg_long_def DrawMessage_def format_window_name_def
      io_visible_def materialize_icon_def fade_alpha_def fade_time_def std_clamp_def
      narrow_to_int_wraps MESSAGE_FADE_TIME_def WINDOW_PADDING_def LEFT_MARGIN_def TOP_MARGIN_def advance_def
      IsVertical_def)

subsection \<open>C3\<close>

text \<open>
  C3, as amended. A call of \<^verbatim>\<open>AddTypedMessage\<close> with a type tag other than the typeless one and
  \<open>prevent_duplicate = false\<close> leaves in the stack it targets every entry that was there,
  in the same order, those of the same type tag now marked \<open>should_discard\<close> and the other
  ones as they were, and puts one new entry among them. The next draw pass of that stack
  leaves no marked entry and erases every marked entry. After that pass the entries of that
  type tag are the new message alone; there is none when the new message is itself removed
  by the pass, which for a message that was never drawn needs 5000 ms past its end. After
  any sequence of one or more passes of that stack, whatever their toggles and clocks, the
  entries of that type tag are still the new message at most.
\<close>

theorem C3_typed_message_replaces_same_type:
  assumes "mtype \<noteq> Typeless"
  shows
    "(let osd' = AddTypedMessage Typeless now mtype message ms argb ic n False sc osd;
          new = Message_new now message ms argb ic sc
      in (\<exists>us vs.
            messages (target osd' n) = us @ [(mtype, new)] @ vs
            \<and> us @ vs = map (\<lambda>e. if fst e = mtype
                                   then (fst e, (snd e)\<lparr>should_discard := True\<rparr>) else e)
                             (messages (target osd n)))
         \<and> filter (\<lambda>e. should_discard (snd e))
              (messages (fst (DrawMessages io d now' ol ot (target osd' n)))) = []
         \<and> filter (\<lambda>e. should_discard (snd e))
              (erased_entries (snd (DrawMessages io d now' ol ot (target osd' n))))
            = filter (\<lambda>e. should_discard (snd e)) (visiting_order (target osd' n))
         \<and> map identity
              (filter (\<lambda>e. fst e = mtype)
                 (messages (fst (DrawMessages io d now' ol ot (target osd' n)))))
            = (if TimeRemaining now' new \<le> 0 \<and> 5000 \<le> - TimeRemaining now' new then []
               else [identity (mtype, new)])
         \<and> subseq
              (map identity
                 (filter (\<lambda>e. fst e = mtype)
                    (messages (DrawMessages_frames io (f # fs) ol ot (target osd' n)))))
              [identity (mtype, new)])"
proof -
  define new where "new = Message_new now message ms argb ic sc"
  define old where "old = messages (target osd n)"
  define marked where "marked = mark_equal_range mtype old"
  define osd' where "osd' = AddTypedMessage Typeless now mtype message ms argb ic n False sc osd"
  define us where "us = takeWhile (\<lambda>e. fst e \<le> mtype) marked"
  define vs where "vs = dropWhile (\<lambda>e. fst e \<le> mtype) marked"
  have tgt: "messages (target osd' n) = us @ [(mtype, new)] @ vs"
    using assms
    by (simp add: osd'_def AddTypedMessage_target new_def old_def marked_def us_def vs_def
        multimap_emplace_split)
  have uv: "us @ vs = map (\<lambda>e. if fst e = mtype
                                 then (fst e, (snd e)\<lparr>should_discard := True\<rparr>) else e) old"
    by (simp add: us_def vs_def marked_def mark_equal_range_map)
  have first: "\<exists>us vs. messages (target osd' n) = us @ [(mtype, new)] @ vs
      \<and> us @ vs = map (\<lambda>e. if fst e = mtype
                             then (fst e, (snd e)\<lparr>should_discard := True\<rparr>) else e) old"
    using tgt uv by blast
  have all_marked: "pruned t (snd e)" if "e \<in> set (us @ vs)" and "fst e = mtype" for e t
  proof -
    from that(1) obtain x where x: "x \<in> set old"
      "e = (if fst x = mtype then (fst x, (snd x)\<lparr>should_discard := True\<rparr>) else x)"
      unfolding uv set_map by (elim imageE) blast
    with that(2) have "e = (fst x, (snd x)\<lparr>should_discard := True\<rparr>)"
      by (cases "fst x = mtype") simp_all
    then show ?thesis by (simp add: pruned_def)
  qed
  then have gone: "filter (\<lambda>e. fst e = mtype \<and> \<not> pruned t (snd e)) us = []"
    "filter (\<lambda>e. fst e = mtype \<and> \<not> pruned t (snd e)) vs = []" for t
    by (auto simp: filter_empty_conv)
  have new_pruned: "pruned now' new
      \<longleftrightarrow> TimeRemaining now' new \<le> 0 \<and> 5000 \<le> - TimeRemaining now' new"
    by (simp add: pruned_iff new_def Message_new_def)
  have last: "map identity
              (filter (\<lambda>e. fst e = mtype)
                 (messages (fst (DrawMessages io d now' ol ot (target osd' n)))))
            = (if TimeRemaining now' new \<le> 0 \<and> 5000 \<le> - TimeRemaining now' new then []
               else [identity (mtype, new)])"
    unfolding filter_key_after_pass tgt using gone new_pruned by simp
  have "map identity
          (filter (\<lambda>e. fst e = mtype)
             (messages (fst (DrawMessages io (fst f) (snd f) ol ot (target osd' n))))) = []
        \<or> map identity
          (filter (\<lambda>e. fst e = mtype)
             (messages (fst (DrawMessages io (fst f) (snd f) ol ot (target osd' n)))))
          = [identity (mtype, new)]"
    unfolding filter_key_after_pass tgt using gone
    by (cases "pruned (snd f) new") simp_all
  then have frames: "subseq
              (map identity
                 (filter (\<lambda>e. fst e = mtype)
                    (messages (DrawMessages_frames io (f # fs) ol ot (target osd' n)))))
              [identity (mtype, new)]"
    by (rule later_frames_keep_at_most)
  show ?thesis
    unfolding Let_def osd'_def [symmetric] new_def [symmetric]
    using first last frames DrawMessages_should_discard [of io d now' ol ot "target osd' n"]
      DrawMessages_erased [of io d now' ol ot "target osd' n"] marked_pruned
    by (simp add: old_def)
qed

text \<open>
  C3 on the two messages of type 0: the second call marks the first message, and the pass
  at clock 100 erases the marked first message and keeps the second.
\<close>

theorem C3_typed_message_replaces_same_type_witness:
  "(0::int) \<noteq> 2
   \<and> messages (target osd_replaced []) = [(0, msg_old\<lparr>should_discard := True\<rparr>), (0, msg_new)]
   \<and> filter (\<lambda>e. should_discard (snd e))
        (messages (fst (DrawMessages io_visible True 100 0 0 (target osd_replaced [])))) = []
   \<and> filter (\<lambda>e. should_discard (snd e))
        (erased_entries (snd (DrawMessages io_visible True 100 0 0 (target osd_replaced []))))
      = [(0, msg_old\<lparr>should_discard := True\<rparr>)]
   \<and> map identity
        (filter (\<lambda>e. fst e = 0)
           (messages (fst (DrawMessages io_visible True 100 0 0 (target osd_replaced [])))))
      = [identity (0, msg_new)]"
proof -
  have h: "(0::int) \<noteq> 2" by simp
  note inst = C3_typed_message_replaces_same_type [OF h, of 0 "''new''" 2000 "0xFF00FF00" None
      "[]" 1 "AddTypedMessage 2 0 0 ''old'' 2000 0xFF00FF00 None [] False 1 OSD_initial"
      io_visible True 100 0 0, unfolded Let_def, folded osd_replaced_def]
  show ?thesis
    using inst
    by (simp add: target_def contains_def osd_replaced_eq evaluation msg_old_def msg_new_def
        DrawMessage_identity DrawMessage_should_discard)
qed

text \<open>
  C3 as stated ends with "only the second survives past the next draw pass". The first
  message of type 0 is drawn by the pass at clock 10; the second, of duration 0, is added
  at clock 20 and drawn by the pass at clock 30, which erases the first. Both have been
  drawn once; the next pass, at clock 46, removes the second too and leaves the stack
  empty.
\<close>

theorem C3_second_message_expires_too:
  "messages (s_defaultMessageStack osd_first_drawn) = [(0, msg_first\<lparr>ever_drawn := True\<rparr>)]
   \<and> messages (s_defaultMessageStack osd_second_added)
     = [(0, msg_first\<lparr>ever_drawn := True, should_discard := True\<rparr>), (0, msg_second)]
   \<and> messages (s_defaultMessageStack osd_second_drawn)
     = [(0, msg_second\<lparr>ever_drawn := True\<rparr>)]
   \<and> messages (s_defaultMessageStack (fst (DrawMessages_all io_visible True 46 osd_second_drawn)))
     = []"
  by (simp add: osd_first_drawn_eq osd_second_added_eq osd_second_drawn_eq evaluation
      DrawMessages_named.simps msg_second_def)

subsection \<open>C4\<close>

text \<open>
  C4. A call of \<^verbatim>\<open>AddTypedMessage\<close> (or of \<^verbatim>\<open>AddMessage\<close>, which is the call with the typeless
  tag) with \<open>prevent_duplicate = true\<close>, when the stack it targets already holds an entry
  with the same type tag and the same text, returns the whole state unchanged: nothing is
  appended to any stack and no entry is marked for discard.
\<close>

theorem C4_duplicate_call_changes_nothing:
  assumes "(mtype, m) \<in> set (messages (if contains (messageStacks osd) message_stack
                                        then stack_at (messageStacks osd) message_stack
                                        else s_defaultMessageStack osd))"
    and "msg_text m = message"
  shows "AddTypedMessage Typeless now mtype message ms argb ic message_stack True sc osd = osd
         \<and> (mtype = Typeless \<longrightarrow>
              AddMessage Typeless now message ms argb ic message_stack True sc osd = osd)"
proof -
  let ?p = "if contains (messageStacks osd) message_stack then NamedStack message_stack
            else DefaultStack"
  from assms have "HasMessage (deref osd ?p) message mtype"
    unfolding HasMessage_def HasMessage_loop_iff deref_target by force
  then show ?thesis
    by (auto simp: AddTypedMessage_def AddMessage_def Let_def)
qed

theorem C4_duplicate_call_changes_nothing_witness:
  "(0, Message_new 0 ''Saved'' 2000 0xFF00FF00 None 1)
     \<in> set (messages (s_defaultMessageStack
              (AddTypedMessage 2 0 0 ''Saved'' 2000 0xFF00FF00 None [] False 1 OSD_initial)))
   \<and> AddTypedMessage 2 500 0 ''Saved'' 3000 0xFFFFFFFF None [] True 1
        (AddTypedMessage 2 0 0 ''Saved'' 2000 0xFF00FF00 None [] False 1 OSD_initial)
     = AddTypedMessage 2 0 0 ''Saved'' 2000 0xFF00FF00 None [] False 1 OSD_initial"
proof -
  let ?osd = "AddTypedMessage 2 0 0 ''Saved'' 2000 0xFF00FF00 None [] False 1 OSD_initial"
  let ?m = "Message_new 0 ''Saved'' 2000 0xFF00FF00 None 1"
  have c: "\<not> contains (messageStacks ?osd) []"
    by (simp add: AddTypedMessage_def contains_def OSD_initial_def store_def)
  have h: "(0, ?m) \<in> set (messages (s_defaultMessageStack ?osd))"
    by (simp add: AddTypedMessage_def contains_def OSD_initial_def store_def deref_def
        OSDMessageStack_default_def OSDMessageStack_new_def)
  have t: "msg_text ?m = ''Saved''"
    by (simp add: Message_new_def)
  from C4_duplicate_call_changes_nothing [of 0 ?m ?osd "[]" "''Saved''" 2 500 3000 "0xFFFFFFFF" None 1]
    c h t
  show ?thesis by simp
qed

subsection \<open>C5\<close>




subsection \<open>C6\<close>




subsection \<open>C7\<close>

text \<open>
  C7, where the code departs from it. The default stack has the empty name, and at the
  start no stack is registered: the message \<open>hi\<close> added with the empty stack name goes to
  the default stack. \<^verbatim>\<open>AddMessageStack\<close> then registers a stack under the empty name, and the
  message \<open>late\<close> added with the empty stack name goes to that registered stack, not to the
  default stack. In the frame drawn after that the two stacks each send a window with the
  name \<^verbatim>\<open>osd__0\<close>, one showing \<open>hi\<close> and one showing \<open>late\<close>.
\<close>

theorem C7_empty_name_appends_to_registered_stack:
  "name (s_defaultMessageStack OSD_initial) = []
   \<and> messageStacks OSD_initial = []
   \<and> messages (s_defaultMessageStack
                  (AddMessage 2 0 ''hi'' 2000 0xFFFFFFFF None [] False 1 OSD_initial))
     = [(2, msg_hi)]
   \<and> map fst (messageStacks osd_empty_name_twice) = [[]]
   \<and> messages (stack_at (messageStacks osd_empty_name_twice) []) = [(2, msg_late)]
   \<and> messages (s_defaultMessageStack osd_empty_name_twice) = [(2, msg_hi)]
   \<and> map window_name (drawn_calls (snd (DrawMessages_all io_visible True 1 osd_empty_name_twice)))
     = [''osd__0'', ''osd__0'']
   \<and> shown_texts (drawn_calls (snd (DrawMessages_all io_visible True 1 osd_empty_name_twice)))
     = [''hi'', ''late'']"
proof -
  have a: "name (s_defaultMessageStack OSD_initial) = []" "messageStacks OSD_initial = []"
    by (simp_all add: OSD_initial_def OSDMessageStack_default_def OSDMessageStack_new_def)
  have b: "messages (s_defaultMessageStack
                  (AddMessage 2 0 ''hi'' 2000 0xFFFFFFFF None [] False 1 OSD_initial))
     = [(2, msg_hi)]"
    by code_simp
  have c: "map fst (messageStacks osd_empty_name_twice) = [[]]"
    "messages (stack_at (messageStacks osd_empty_name_twice) []) = [(2, msg_late)]"
    "messages (s_defaultMessageStack osd_empty_name_twice) = [(2, msg_hi)]"
    by (simp_all add: osd_empty_name_twice_eq OSD_initial_def stack_at_def)
  have d: "map window_name (drawn_calls (snd (DrawMessages_all io_visible True 1 osd_empty_name_twice)))
     = [''osd__0'', ''osd__0'']"
    by (simp add: osd_empty_name_twice_eq evaluation msg_hi_def msg_late_def draw_evaluation
        io_visible_def)
  have e: "shown_texts (drawn_calls (snd (DrawMessages_all io_visible True 1 osd_empty_name_twice)))
     = [''hi'', ''late'']"
    by (simp add: osd_empty_name_twice_eq evaluation msg_hi_def msg_late_def draw_evaluation
        io_visible_def)
  show ?thesis
    by (intro conjI a b c d e)
qed

subsection \<open>C8\<close>

text \<open>
  C8, as amended. A call of \<^verbatim>\<open>AddTypedMessage\<close> whose stack name is not registered works on the default
  stack and returns a state, there being no error to return: the named stacks are as they
  were, and the default stack holds its old entries, in their order, and the new message
  among them; only a call suppressed as a duplicate of an entry of the default stack
  (\<open>prevent_duplicate\<close>, C4) adds nothing and returns the state unchanged. \<^verbatim>\<open>AddMessage\<close> is
  that call with the typeless tag.
\<close>

theorem C8_unregistered_name_falls_back_to_default_stack:
  assumes "\<not> contains (messageStacks osd) n"
  shows
    "(let osd' = AddTypedMessage Typeless now mtype message ms argb ic n pd sc osd
      in messageStacks osd' = messageStacks osd
         \<and> (if pd \<and> HasMessage (s_defaultMessageStack osd) message mtype then osd' = osd
             else \<exists>us vs.
                    messages (s_defaultMessageStack osd')
                      = us @ [(mtype, Message_new now message ms argb ic sc)] @ vs
                    \<and> map identity (us @ vs)
                        = map identity (messages (s_defaultMessageStack osd))))
     \<and> AddMessage Typeless now message ms argb ic n pd sc osd
         = AddTypedMessage Typeless now Typeless message ms argb ic n pd sc osd"
proof (cases "pd \<and> HasMessage (s_defaultMessageStack osd) message mtype")
  case True
  then show ?thesis
    using AddTypedMessage_unregistered(2) [OF assms True, of Typeless now ms argb ic sc]
    by (simp add: Let_def AddMessage_def)
next
  case False
  then show ?thesis
    using AddTypedMessage_unregistered(3) [OF assms False, of Typeless now ms argb ic sc]
    by (cases pd)
       (simp_all add: Let_def AddMessage_def AddTypedMessage_unregistered(1) [OF assms])
qed

text \<open>
  C8 on the initial state and the name \<open>nowhere\<close>: the message is in the default stack and
  there is still no named stack.
\<close>

theorem C8_unregistered_name_falls_back_to_default_stack_witness:
  "\<not> contains (messageStacks OSD_initial) ''nowhere''
   \<and> messageStacks osd_unknown_name = messageStacks OSD_initial
   \<and> messages (s_defaultMessageStack OSD_initial) = []
   \<and> messages (s_defaultMessageStack osd_unknown_name) = [(2, msg_hi)]"
proof -
  have h: "\<not> contains (messageStacks OSD_initial) ''nowhere''"
    by (simp add: contains_def OSD_initial_def)
  note inst = C8_unregistered_name_falls_back_to_default_stack
      [OF h, of 2 0 2 "''hi''" 2000 "0xFFFFFFFF" None False 1, unfolded Let_def]
  from inst have "messageStacks (AddTypedMessage 2 0 2 ''hi'' 2000 0xFFFFFFFF None ''nowhere''
                                   False 1 OSD_initial) = messageStacks OSD_initial"
    by simp
  then have "messageStacks osd_unknown_name = messageStacks OSD_initial"
    by (simp add: osd_unknown_name_def AddMessage_def)
  with h show ?thesis
    by (simp add: osd_unknown_name_eq OSD_initial_def OSDMessageStack_default_def
        OSDMessageStack_new_def)
qed

text \<open>
  C8 as stated says that the message is added to the default stack. The default stack
  holds the typeless \<open>hi\<close>; a call for a typeless \<open>hi\<close> with \<open>prevent_duplicate = true\<close> under
  the name \<open>nowhere\<close>, which is not registered, adds nothing.
\<close>

theorem C8_suppressed_call_adds_nothing:
  "contains (messageStacks osd_unknown_name) ''nowhere'' = False
   \<and> messages (s_defaultMessageStack osd_unknown_name) = [(2, msg_hi)]
   \<and> msg_text msg_hi = ''hi''
   \<and> AddMessage 2 50 ''hi'' 3000 0xFFFFFFFF None ''nowhere'' True 1 osd_unknown_name
     = osd_unknown_name
   \<and> messages (s_defaultMessageStack
        (AddMessage 2 50 ''hi'' 3000 0xFFFFFFFF None ''nowhere'' True 1 osd_unknown_name))
     = [(2, msg_hi)]"
  by (simp add: AddMessage_def AddTypedMessage_def Let_def osd_unknown_name_eq contains_def
      OSD_initial_def deref_def HasMessage_def msg_hi_def Message_new_def)

subsection \<open>C9\<close>

text \<open>
  C9, as amended. In a draw pass with drawing enabled over a stack with
  \<open>dir = Downward\<close> and \<open>centered = false\<close>, take the windows that are given a position,
  in the order of the pass; they are the windows that \<^verbatim>\<open>ImGui::Begin\<close> began, one for
  every entry the pass keeps when the backend begins every window. All have the x
  coordinate of the start of the stack, the first one has its y coordinate, and each
  further one lies below the one before it by that window's reported height plus 4 pixels
  times the vertical framebuffer scale. The y coordinates are therefore in increasing
  order when no reported height and not the scale is negative. An entry whose window is
  not begun is given no position and moves the cursor by nothing.
\<close>

theorem C9_begun_windows_stacked_downward:
  assumes "dir s = Downward" and "\<not> centered s"
  shows
    "(let ps = window_positions (drawn_calls (snd (DrawMessages io True now ol ot s)));
          x0 = 10 * fst (DisplayFramebufferScale io) + of_int ol + fst (initialPosOffset s);
          y0 = 10 * snd (DisplayFramebufferScale io) + of_int ot + snd (initialPosOffset s)
      in (\<forall>p\<in>set ps. fst (snd p) = x0)
         \<and> (ps \<noteq> [] \<longrightarrow> snd (snd (hd ps)) = y0)
         \<and> successively
              (\<lambda>p q. snd (snd q) = snd (snd p) + snd (ImGui_GetWindowSize io (fst p))
                                      + 4 * snd (DisplayFramebufferScale io)) ps
         \<and> ((\<forall>w. 0 \<le> snd (ImGui_GetWindowSize io w)) \<and> 0 \<le> snd (DisplayFramebufferScale io)
              \<longrightarrow> sorted (map (\<lambda>p. snd (snd p)) ps))
         \<and> ((\<forall>w. ImGui_Begin io w)
              \<longrightarrow> length ps = length (filter (\<lambda>e. \<not> pruned now (snd e)) (messages s))))"
proof -
  define x0 where
    "x0 = 10 * fst (DisplayFramebufferScale io) + of_int ol + fst (initialPosOffset s)"
  define y0 where
    "y0 = 10 * snd (DisplayFramebufferScale io) + of_int ot + snd (initialPosOffset s)"
  define ps where
    "ps = window_positions (drawn_calls (snd (DrawMessages io True now ol ot s)))"
  have start: "start_cursor io ol ot s = (x0, y0)"
    using assms(1) by (simp add: start_cursor_def x0_def y0_def LEFT_MARGIN_def TOP_MARGIN_def)
  have ps: "ps = window_positions
                   (drawn_calls (snd (visit io True now s (x0, y0) 0 (visiting_order s))))"
    by (simp add: ps_def DrawMessages_visit Let_def start)
  note v = visit_downward [OF assms, of io now x0 y0 0 "visiting_order s", folded ps]
  have a: "\<forall>p\<in>set ps. fst (snd p) = x0" using v by blast
  have b: "ps \<noteq> [] \<longrightarrow> snd (snd (hd ps)) = y0" using v by blast
  have c: "successively
              (\<lambda>p q. snd (snd q) = snd (snd p) + snd (ImGui_GetWindowSize io (fst p))
                                      + 4 * snd (DisplayFramebufferScale io)) ps"
    using v by blast
  have d: "sorted (map (\<lambda>p. snd (snd p)) ps)"
    if "(\<forall>w. 0 \<le> snd (ImGui_GetWindowSize io w)) \<and> 0 \<le> snd (DisplayFramebufferScale io)"
  proof (rule increasing_positions
      [where g = "\<lambda>p. snd (ImGui_GetWindowSize io (fst p)) + 4 * snd (DisplayFramebufferScale io)"])
    show "successively
            (\<lambda>p q. snd (snd q) = snd (snd p) + (snd (ImGui_GetWindowSize io (fst p))
                                    + 4 * snd (DisplayFramebufferScale io))) ps"
      using c by (simp add: add.assoc)
    show "\<forall>p. 0 \<le> snd (ImGui_GetWindowSize io (fst p)) + 4 * snd (DisplayFramebufferScale io)"
      using that by (simp add: add_nonneg_nonneg)
  qed
  have e: "length ps = length (filter (\<lambda>e. \<not> pruned now (snd e)) (messages s))"
    if "\<forall>w. ImGui_Begin io w"
  proof -
    have "length (filter P (rev xs)) = length (filter P xs)"
      for P and xs :: "(MessageType \<times> Message) list"
      by (simp add: rev_filter [symmetric])
    then show ?thesis
      unfolding ps by (simp add: visit_positions_length [OF that] visiting_order_def)
  qed
  show ?thesis
    unfolding Let_def ps_def [symmetric] x0_def [symmetric] y0_def [symmetric]
    using a b c d e by blast
qed

text \<open>
  C9 on the stack \<open>r\<close> with its four messages and the backend that begins every window
  and reports a height of 20: the windows are at y = 10, 34, 58 and 82.
\<close>

theorem C9_begun_windows_stacked_downward_witness:
  "dir (target osd_reversed_CD ''r'') = Downward
   \<and> \<not> centered (target osd_reversed_CD ''r'')
   \<and> (\<forall>w. 0 \<le> snd (ImGui_GetWindowSize io_visible w))
   \<and> 0 \<le> snd (DisplayFramebufferScale io_visible)
   \<and> (\<forall>w. ImGui_Begin io_visible w)
   \<and> window_positions (drawn_calls (snd (DrawMessages io_visible True 3 0 0
                                            (target osd_reversed_CD ''r''))))
     = [(''osd_r_0'', (10, 10)), (''osd_r_1'', (10, 34)), (''osd_r_2'', (10, 58)),
        (''osd_r_3'', (10, 82))]
   \<and> sorted (map (\<lambda>p. snd (snd p))
        (window_positions (drawn_calls (snd (DrawMessages io_visible True 3 0 0
                                              (target osd_reversed_CD ''r''))))))
   \<and> length (window_positions (drawn_calls (snd (DrawMessages io_visible True 3 0 0
                                                    (target osd_reversed_CD ''r'')))))
     = length (filter (\<lambda>e. \<not> pruned 3 (snd e)) (messages (target osd_reversed_CD ''r'')))"
proof -
  have h1: "dir (target osd_reversed_CD ''r'') = Downward"
    by (simp add: stack_r_eq OSDMessageStack_new_def)
  have h2: "\<not> centered (target osd_reversed_CD ''r'')"
    by (simp add: stack_r_eq OSDMessageStack_new_def)
  have h3: "(\<forall>w. 0 \<le> snd (ImGui_GetWindowSize io_visible w))
            \<and> 0 \<le> snd (DisplayFramebufferScale io_visible)"
    by (simp add: io_visible_def)
  have h4: "\<forall>w. ImGui_Begin io_visible w"
    by (simp add: io_visible_def)
  note inst = C9_begun_windows_stacked_downward [OF h1 h2, of io_visible 3 0 0, unfolded Let_def]
  from inst h3 have s: "sorted (map (\<lambda>p. snd (snd p))
        (window_positions (drawn_calls (snd (DrawMessages io_visible True 3 0 0
                                              (target osd_reversed_CD ''r''))))))"
    by blast
  from inst h4 have l: "length (window_positions (drawn_calls (snd (DrawMessages io_visible True 3 0 0
                                                    (target osd_reversed_CD ''r'')))))
     = length (filter (\<lambda>e. \<not> pruned 3 (snd e)) (messages (target osd_reversed_CD ''r'')))"
    by blast
  have p: "window_positions (drawn_calls (snd (DrawMessages io_visible True 3 0 0
                                            (target osd_reversed_CD ''r''))))
     = [(''osd_r_0'', (10, 10)), (''osd_r_1'', (10, 34)), (''osd_r_2'', (10, 58)),
        (''osd_r_3'', (10, 82))]"
    by (simp add: stack_r_eq evaluation msg_A_def msg_B_def msg_C_def msg_D_def
        draw_evaluation io_visible_def)
  from h3 have h3a: "\<forall>w. 0 \<le> snd (ImGui_GetWindowSize io_visible w)"
    and h3b: "0 \<le> snd (DisplayFramebufferScale io_visible)"
    by blast+
  show ?thesis
    by (intro conjI h1 h2 h3a h3b h4 p s l)
qed

text \<open>
  C9 as stated has every message that survives pruning positioned, each below the one
  before it by that one's height plus the padding. With the backend that does not begin
  the second window, all four messages of the stack \<open>r\<close> survive the pass and four windows
  are sent, but the second (\<open>C\<close>) is given no position, and the third is at y = 34:
  below the first by 24, with nothing added for the second, whose reported height is 20.
\<close>

theorem C9_window_not_begun_gets_no_position:
  "dir (target osd_reversed_CD ''r'') = Downward
   \<and> centered (target osd_reversed_CD ''r'') = False
   \<and> map identity (messages (fst (DrawMessages io_second_hidden True 3 0 0
                                     (target osd_reversed_CD ''r''))))
     = [identity (0, msg_B), identity (1, msg_A), identity (2, msg_C), identity (2, msg_D)]
   \<and> map window_name (drawn_calls (snd (DrawMessages io_second_hidden True 3 0 0
                                           (target osd_reversed_CD ''r''))))
     = [''osd_r_0'', ''osd_r_1'', ''osd_r_2'', ''osd_r_3'']
   \<and> ImGui_GetWindowSize io_second_hidden ''osd_r_1'' = (100, 20)
   \<and> window_positions (drawn_calls (snd (DrawMessages io_second_hidden True 3 0 0
                                            (target osd_reversed_CD ''r''))))
     = [(''osd_r_0'', (10, 10)), (''osd_r_2'', (10, 34)), (''osd_r_3'', (10, 58))]
   \<and> shown_texts (drawn_calls (snd (DrawMessages io_second_hidden True 3 0 0
                                       (target osd_reversed_CD ''r''))))
     = [''D'', ''A'', ''B'']"
  by (simp add: stack_r_eq evaluation msg_A_def msg_B_def msg_C_def msg_D_def
      draw_evaluation io_second_hidden_def io_visible_def identity_def)

subsection \<open>C10\<close>

text \<open>
  C10, as amended. \<^verbatim>\<open>HasMessage\<close> does not look at \<open>should_discard\<close>. When the stack a call
  targets holds an entry with the given type tag and text, and every such entry is marked
  \<open>should_discard\<close>, a call of \<^verbatim>\<open>AddTypedMessage\<close> with \<open>prevent_duplicate = true\<close> still
  finds a duplicate and returns the state unchanged; after the next draw pass of that stack
  no entry has that type tag and that text.
\<close>

theorem C10_marked_duplicate_suppresses_and_text_of_type_vanishes:
  assumes "(mtype, m) \<in> set (messages (target osd n))"
    and "msg_text m = message"
    and "\<forall>e\<in>set (messages (target osd n)).
           fst e = mtype \<and> msg_text (snd e) = message \<longrightarrow> should_discard (snd e)"
  shows "HasMessage (target osd n) message mtype
         \<and> AddTypedMessage Typeless now mtype message ms argb ic n True sc osd = osd
         \<and> filter (\<lambda>e. fst e = mtype \<and> msg_text (snd e) = message)
              (messages (fst (DrawMessages io d now' ol ot
                 (target (AddTypedMessage Typeless now mtype message ms argb ic n True sc osd) n))))
           = []"
proof -
  have has: "HasMessage (target osd n) message mtype"
    using assms(1,2) unfolding HasMessage_iff by force
  then have noop: "AddTypedMessage Typeless now mtype message ms argb ic n True sc osd = osd"
    by (simp add: AddTypedMessage_suppressed)
  have "\<not> (fst e' = mtype \<and> msg_text (snd e') = message)"
    if "e' \<in> set (messages (fst (DrawMessages io d now' ol ot (target osd n))))" for e'
  proof
    assume match: "fst e' = mtype \<and> msg_text (snd e') = message"
    from kept_entry_origin [OF that] obtain e where e: "e \<in> set (messages (target osd n))"
      "\<not> pruned now' (snd e)" "identity e = identity e'"
      by blast
    from e(3) match have "fst e = mtype \<and> msg_text (snd e) = message"
      by (simp add: identity_def)
    with assms(3) e(1) have "should_discard (snd e)" by blast
    with e(2) show False by (simp add: pruned_def)
  qed
  then have "filter (\<lambda>e. fst e = mtype \<and> msg_text (snd e) = message)
              (messages (fst (DrawMessages io d now' ol ot (target osd n)))) = []"
    by (simp add: filter_empty_conv)
  with has noop show ?thesis by simp
qed

text \<open>
  C10 on the default stack holding the marked \<open>hi\<close> and \<open>bye\<close>, both of type 0: the call
  for \<open>hi\<close> of type 0 changes nothing, and the pass at clock 100 leaves \<open>bye\<close> alone.
\<close>

theorem C10_marked_duplicate_suppresses_and_text_of_type_vanishes_witness:
  "(0, msg_hi0\<lparr>should_discard := True\<rparr>) \<in> set (messages (target osd_marked_hi []))
   \<and> msg_text (msg_hi0\<lparr>should_discard := True\<rparr>) = ''hi''
   \<and> HasMessage (target osd_marked_hi []) ''hi'' 0
   \<and> AddTypedMessage 2 50 0 ''hi'' 2000 0xFFFFFFFF None [] True 1 osd_marked_hi = osd_marked_hi
   \<and> filter (\<lambda>e. fst e = 0 \<and> msg_text (snd e) = ''hi'')
        (messages (fst (DrawMessages io_visible True 100 0 0 (target osd_marked_hi [])))) = []
   \<and> map identity (messages (fst (DrawMessages io_visible True 100 0 0 (target osd_marked_hi []))))
     = [identity (0, msg_bye)]"
proof -
  have t: "messages (target osd_marked_hi [])
             = [(0, msg_hi0\<lparr>should_discard := True\<rparr>), (0, msg_bye)]"
    by (simp add: osd_marked_hi_eq target_def contains_def OSD_initial_def)
  have h1: "(0, msg_hi0\<lparr>should_discard := True\<rparr>) \<in> set (messages (target osd_marked_hi []))"
    by (simp add: t)
  have h2: "msg_text (msg_hi0\<lparr>should_discard := True\<rparr>) = ''hi''"
    by (simp add: msg_hi0_def Message_new_def)
  have h3: "\<forall>e\<in>set (messages (target osd_marked_hi [])).
           fst e = 0 \<and> msg_text (snd e) = ''hi'' \<longrightarrow> should_discard (snd e)"
    by (simp add: t msg_bye_def Message_new_def)
  note inst = C10_marked_duplicate_suppresses_and_text_of_type_vanishes
      [OF h1 h2 h3, of 2 50 2000 "0xFFFFFFFF" None 1 io_visible True 100 0 0]
  have i: "map identity (messages (fst (DrawMessages io_visible True 100 0 0
                                      (target osd_marked_hi []))))
     = [identity (0, msg_bye)]"
    by (simp add: osd_marked_hi_eq target_def contains_def evaluation msg_hi0_def msg_bye_def
        DrawMessage_identity)
  from inst have n: "AddTypedMessage 2 50 0 ''hi'' 2000 0xFFFFFFFF None [] True 1 osd_marked_hi
      = osd_marked_hi"
    by blast
  from inst have "filter (\<lambda>e. fst e = 0 \<and> msg_text (snd e) = ''hi'')
        (messages (fst (DrawMessages io_visible True 100 0 0
           (target (AddTypedMessage 2 50 0 ''hi'' 2000 0xFFFFFFFF None [] True 1 osd_marked_hi)
              [])))) = []"
    by blast
  then have f: "filter (\<lambda>e. fst e = 0 \<and> msg_text (snd e) = ''hi'')
        (messages (fst (DrawMessages io_visible True 100 0 0 (target osd_marked_hi [])))) = []"
    by (simp only: n)
  from inst have g: "HasMessage (target osd_marked_hi []) ''hi'' 0"
    by blast
  show ?thesis
    by (intro conjI h1 h2 g n f i)
qed

text \<open>
  C10 as stated ends with "the stack contains no message with that text at all". With a
  second \<open>hi\<close> of type 1 in the stack, every entry of type 0 with the text \<open>hi\<close> is marked,
  the call for \<open>hi\<close> of type 0 changes nothing, and after the pass at clock 100 the stack
  still holds the \<open>hi\<close> of type 1.
\<close>

theorem C10_same_text_of_other_type_stays:
  "messages (s_defaultMessageStack osd_same_text)
     = [(0, msg_hi0\<lparr>should_discard := True\<rparr>), (0, msg_bye), (1, msg_hi1)]
   \<and> msg_text msg_hi0 = ''hi'' \<and> msg_text msg_bye = ''bye'' \<and> msg_text msg_hi1 = ''hi''
   \<and> AddTypedMessage 2 50 0 ''hi'' 2000 0xFFFFFFFF None [] True 1 osd_same_text = osd_same_text
   \<and> map identity
        (messages (s_defaultMessageStack (fst (DrawMessages_all io_visible True 100 osd_same_text))))
     = [identity (0, msg_bye), identity (1, msg_hi1)]"
proof -
  have a: "messages (s_defaultMessageStack osd_same_text)
     = [(0, msg_hi0\<lparr>should_discard := True\<rparr>), (0, msg_bye), (1, msg_hi1)]"
    by (simp add: osd_same_text_eq)
  have b: "msg_text msg_hi0 = ''hi'' \<and> msg_text msg_bye = ''bye'' \<and> msg_text msg_hi1 = ''hi''"
    by (simp add: msg_hi0_def msg_bye_def msg_hi1_def Message_new_def)
  have c: "AddTypedMessage 2 50 0 ''hi'' 2000 0xFFFFFFFF None [] True 1 osd_same_text
             = osd_same_text"
    by (simp add: AddTypedMessage_def Let_def osd_same_text_eq contains_def OSD_initial_def
        deref_def HasMessage_def msg_hi0_def Message_new_def)
  have d: "map identity
        (messages (s_defaultMessageStack (fst (DrawMessages_all io_visible True 100 osd_same_text))))
     = [identity (0, msg_bye), identity (1, msg_hi1)]"
    by (simp add: osd_same_text_eq evaluation msg_hi0_def msg_bye_def msg_hi1_def
        DrawMessage_identity)
  from a b c d show ?thesis by simp
qed

end
